theory Spec2Isabelle
  imports Main "HOL-Library.Word" "HOL-Library.AList"
begin

section \<open>The account store of package users\<close>

text \<open>
  A shallow embedding of the Go package \<open>users\<close>: the account store (\<open>Model\<close>) and
  the accounts (\<open>User\<close>) it keeps in one DynamoDB table. Go strings are byte sequences,
  here \<open>string\<close>; \<open>int64\<close> is \<open>64 word\<close>. What the package calls but does not define
  (the JSON codec, PBKDF2, Base64, the table server, the clock) is a parameter of the model.
\<close>

subsection \<open>Data\<close>

definition cPrimKey :: string where
  "cPrimKey = ''uid''"

definition CActivityAccountType :: string where
  "CActivityAccountType = ''account''"

definition CActivityShardsType :: string where
  "CActivityShardsType = ''shards''"

record LogLine =
  Ts :: "64 word"
  Ip :: string
  LogType :: string
  Desc :: string

text \<open>
  \<open>Model\<close>: the connection and the table handle of the Go struct denote the remote table,
  whose state is the separate \<open>table\<close> value below.
\<close>

record Model =
  prefix :: string
  secret :: string
  tableName :: string

text \<open>
  A Go \<open>map[string][]*LogLine\<close>: \<open>None\<close> is the nil map, which can be read but not
  assigned to; otherwise a partial map from category to the sequence of its lines, where a
  line is a pointer and \<open>None\<close> the nil pointer. The nil slice and the empty slice are
  both the empty list: the package only appends to slices.
\<close>

type_synonym logmap = "(string \<rightharpoonup> LogLine option list) option"

text \<open>\<open>User\<close>: the fields of the Go struct but the mutex, which no method locks.\<close>

record User =
  uid :: string
  key :: string
  Enabled :: string
  logs :: logmap
  RegTs :: "64 word"
  RegIp :: string
  md :: Model

subsection \<open>The libraries the package calls\<close>

text \<open>
  \<open>json.Unmarshal(info, &user)\<close> writes through a pointer to the pointer \<open>user\<close>. It has
  three outcomes: an error; the JSON value \<open>null\<close>, which sets \<open>user\<close> to nil and is no
  error; an object, which leaves in \<open>RegTs\<close> and \<open>RegIp\<close> (zero before the call) the two
  values carried here. No other field of \<open>User\<close> is exported to JSON.
\<close>

datatype info_json = JsonError | JsonNull | JsonObject "64 word" string

text \<open>
  The library functions, taken as parameters:
  \<^item> \<open>pbkdf2_Key password salt iter keyLen\<close> is \<open>pbkdf2.Key\<close> with \<open>sha256.New\<close>;
  \<^item> \<open>base64_EncodeToString\<close> is \<open>base64.StdEncoding.EncodeToString\<close>;
  \<^item> \<open>Marshal_info reg_ts reg_ip\<close> is \<open>json.Marshal(us)\<close>, which writes the two exported
    fields of the user; \<open>Marshal_logs\<close> is \<open>json.Marshal(us.logs)\<close>;
  \<^item> \<open>Unmarshal_info\<close> is described above; \<open>Unmarshal_logs\<close> is \<open>json.Unmarshal\<close> into
    \<open>&user.logs\<close>, which holds the empty map before the call: \<open>None\<close> for an error,
    otherwise the map the call leaves there, which is the nil map for the JSON \<open>null\<close>.
\<close>

record libs =
  pbkdf2_Key :: "string \<Rightarrow> string \<Rightarrow> nat \<Rightarrow> nat \<Rightarrow> string"
  base64_EncodeToString :: "string \<Rightarrow> string"
  Marshal_info :: "64 word \<Rightarrow> string \<Rightarrow> string"
  Marshal_logs :: "logmap \<Rightarrow> string"
  Unmarshal_info :: "string \<Rightarrow> info_json"
  Unmarshal_logs :: "string \<Rightarrow> logmap option"

subsection \<open>The table\<close>

text \<open>
  An item maps attribute names to their string values. The table holds its items by hash
  key, in the order a scan returns them. The three flags are the environment's answer to
  the network calls: a call of that kind returns an error while its flag is set.
\<close>

type_synonym item = "string \<rightharpoonup> string"

record table =
  rows :: "(string \<times> item) list"
  get_fails :: bool
  put_fails :: bool
  scan_fails :: bool

text \<open>\<open>GetItemConsistent\<close>: \<open>None\<close> is the error, also returned when there is no item.\<close>

definition GetItemConsistent :: "table \<Rightarrow> string \<Rightarrow> item option" where
  "GetItemConsistent db hashKey =
     (if get_fails db then None else map_of (rows db) hashKey)"

text \<open>
  \<open>PutItem\<close> overwrites the whole item under the hash key; \<open>None\<close> is the error. The
  table is created with a hash key only, so the range key argument is not used.
\<close>

definition PutItem ::
  "table \<Rightarrow> string \<Rightarrow> string \<Rightarrow> (string \<times> string) list \<Rightarrow> table option" where
  "PutItem db hashKey rangeKey attribs =
     (if put_fails db then None
      else Some (db\<lparr>rows := AList.update hashKey (map_of attribs) (rows db)\<rparr>))"

text \<open>\<open>Scan\<close>: every item, with its hash key as attribute \<open>uid\<close>; \<open>None\<close> is the error.\<close>

definition Scan :: "table \<Rightarrow> item list option" where
  "Scan db =
     (if scan_fails db then None
      else Some (map (\<lambda>(k, it). it(cPrimKey \<mapsto> k)) (rows db)))"

subsection \<open>Results\<close>

text \<open>
  A call either returns or panics on a nil value: the nil pointer dereference of
  \<open>data["key"].Value\<close> on an item without that attribute and of \<open>&user.logs\<close> after
  \<open>user\<close> was set to nil, and the assignment to an entry of a nil map.
\<close>

datatype 'a outcome = NilPanic | Return 'a

datatype reg_error = ExistingUserAccount | ErrorStoringUserData

subsection \<open>The store\<close>

text \<open>\<open>strings.Replace(s, old, new, -1)\<close> for a one-byte \<open>old\<close>.\<close>

definition Replace :: "string \<Rightarrow> char \<Rightarrow> string \<Rightarrow> string" where
  "Replace s old new = concat (map (\<lambda>c. if c = old then new else [c]) s)"

definition HashPassword :: "libs \<Rightarrow> Model \<Rightarrow> string \<Rightarrow> string" where
  "HashPassword L um password =
     base64_EncodeToString L (pbkdf2_Key L password (secret um) 4096 32)"

definition persist :: "libs \<Rightarrow> User \<Rightarrow> table \<Rightarrow> bool \<times> table" where
  "persist L us db =
     (let userJsonInfo = Marshal_info L (RegTs us) (RegIp us);
          userJsonLogs = Marshal_logs L (logs us);
          attribs = [(cPrimKey, uid us), (''key'', key us), (''info'', userJsonInfo),
                     (''logs'', userJsonLogs), (''enabled'', Enabled us)]
      in case PutItem db (uid us) cPrimKey attribs of
           None \<Rightarrow> (False, db)
         | Some db' \<Rightarrow> (True, db'))"

text \<open>
  The body shared by \<open>AdminGetUserInfoByID\<close> (on \<open>data\<close>) and the loop of
  \<open>GetRegisteredUsers\<close> (on \<open>row\<close>): build the user from the item's attributes, then
  unmarshal \<open>info\<close> and \<open>logs\<close>. \<open>Return None\<close> is the \<open>return nil\<close> after a JSON error.
\<close>

definition load_user :: "libs \<Rightarrow> Model \<Rightarrow> string \<Rightarrow> item \<Rightarrow> User option outcome" where
  "load_user L um u data =
     (case data ''key'' of None \<Rightarrow> NilPanic | Some k \<Rightarrow>
     (case data ''enabled'' of None \<Rightarrow> NilPanic | Some en \<Rightarrow>
     (case data ''info'' of None \<Rightarrow> NilPanic | Some info \<Rightarrow>
     (case Unmarshal_info L info of
        JsonError \<Rightarrow> Return None
      | JsonNull \<Rightarrow> NilPanic
      | JsonObject ts ip \<Rightarrow>
         (case data ''logs'' of None \<Rightarrow> NilPanic | Some lg \<Rightarrow>
         (case Unmarshal_logs L lg of
            None \<Rightarrow> Return None
          | Some lm \<Rightarrow> Return (Some \<lparr>uid = u, key = k, Enabled = en, logs = lm,
                                    RegTs = ts, RegIp = ip, md = um\<rparr>)))))))"

definition AdminGetUserInfoByID :: "libs \<Rightarrow> Model \<Rightarrow> table \<Rightarrow> string \<Rightarrow> User option outcome" where
  "AdminGetUserInfoByID L um db u =
     (case GetItemConsistent db u of
        None \<Rightarrow> Return None
      | Some data \<Rightarrow> load_user L um u data)"

definition GetUserInfo :: "libs \<Rightarrow> Model \<Rightarrow> table \<Rightarrow> string \<Rightarrow> string \<Rightarrow> User option outcome" where
  "GetUserInfo L um db u password =
     (case AdminGetUserInfoByID L um db u of
        NilPanic \<Rightarrow> NilPanic
      | Return None \<Rightarrow> Return None
      | Return (Some user) \<Rightarrow>
          if key user \<noteq> HashPassword L um password \<or> Enabled user = ''0''
          then Return None else Return (Some user))"

text \<open>\<open>now\<close> is the value of \<open>time.Now().Unix()\<close> at the call.\<close>

definition RegisterUserPlainKey ::
  "libs \<Rightarrow> Model \<Rightarrow> 64 word \<Rightarrow> table \<Rightarrow> string \<Rightarrow> string \<Rightarrow> string
     \<Rightarrow> (reg_error + User) outcome \<times> table" where
  "RegisterUserPlainKey L um now db u k ip =
     (let u' = Replace u (CHR ''+'') [] in
      case AdminGetUserInfoByID L um db u' of
        NilPanic \<Rightarrow> (NilPanic, db)
      | Return (Some _) \<Rightarrow> (Return (Inl ExistingUserAccount), db)
      | Return None \<Rightarrow>
          (let user = \<lparr>uid = u', key = k, Enabled = ''1'', logs = Some Map.empty,
                       RegTs = now, RegIp = ip, md = um\<rparr>
           in case persist L user db of
                (False, db') \<Rightarrow> (Return (Inl ErrorStoringUserData), db')
              | (True, db') \<Rightarrow> (Return (Inr user), db')))"

definition RegisterUser ::
  "libs \<Rightarrow> Model \<Rightarrow> 64 word \<Rightarrow> table \<Rightarrow> string \<Rightarrow> string \<Rightarrow> string
     \<Rightarrow> (reg_error + User) outcome \<times> table" where
  "RegisterUser L um now db u password ip =
     RegisterUserPlainKey L um now db u (HashPassword L um password) ip"

fun scan_loop ::
  "libs \<Rightarrow> Model \<Rightarrow> item list \<Rightarrow> (string \<rightharpoonup> User) \<Rightarrow> (string \<rightharpoonup> User) option outcome" where
  "scan_loop L um [] users = Return (Some users)"
| "scan_loop L um (row # rest) users =
     (case row ''uid'' of None \<Rightarrow> NilPanic | Some u \<Rightarrow>
     (case load_user L um u row of
        NilPanic \<Rightarrow> NilPanic
      | Return None \<Rightarrow> Return None
      | Return (Some user) \<Rightarrow> scan_loop L um rest (users(u \<mapsto> user))))"

definition GetRegisteredUsers :: "libs \<Rightarrow> Model \<Rightarrow> table \<Rightarrow> (string \<rightharpoonup> User) option outcome" where
  "GetRegisteredUsers L um db =
     (case Scan db of
        None \<Rightarrow> Return None
      | Some found \<Rightarrow> scan_loop L um found Map.empty)"

subsection \<open>The account\<close>

text \<open>
  A method mutates the user it is called on and returns \<open>persisted\<close>; here it returns that
  boolean, the user as the call leaves it, and the table.
\<close>

definition DisableUser :: "libs \<Rightarrow> User \<Rightarrow> table \<Rightarrow> bool \<times> User \<times> table" where
  "DisableUser L us db =
     (let us' = us\<lparr>Enabled := ''0''\<rparr>; (persisted, db') = persist L us' db
      in (persisted, us', db'))"

definition EnableUser :: "libs \<Rightarrow> User \<Rightarrow> table \<Rightarrow> bool \<times> User \<times> table" where
  "EnableUser L us db =
     (let us' = us\<lparr>Enabled := ''1''\<rparr>; (persisted, db') = persist L us' db
      in (persisted, us', db'))"

definition UpdateUser :: "libs \<Rightarrow> User \<Rightarrow> string \<Rightarrow> table \<Rightarrow> bool \<times> User \<times> table" where
  "UpdateUser L us k db =
     (let us' = us\<lparr>key := HashPassword L (md us) k\<rparr>; (persisted, db') = persist L us' db
      in (persisted, us', db'))"

text \<open>
  Reading a Go map, also the nil map: \<open>has_key\<close> is the \<open>ok\<close> of \<open>_, ok := m[c]\<close>, and
  \<open>index_logs\<close> is \<open>m[c]\<close>, the nil slice at a missing key. \<open>assign\<close> is \<open>m[c] = ls\<close>,
  which panics on the nil map.
\<close>

definition has_key :: "logmap \<Rightarrow> string \<Rightarrow> bool" where
  "has_key lm c = (case lm of None \<Rightarrow> False | Some m \<Rightarrow> m c \<noteq> None)"

definition index_logs :: "logmap \<Rightarrow> string \<Rightarrow> LogLine option list" where
  "index_logs lm c =
     (case lm of None \<Rightarrow> [] | Some m \<Rightarrow> (case m c of None \<Rightarrow> [] | Some ls \<Rightarrow> ls))"

definition assign :: "logmap \<Rightarrow> string \<Rightarrow> LogLine option list \<Rightarrow> logmap outcome" where
  "assign lm c ls = (case lm of None \<Rightarrow> NilPanic | Some m \<Rightarrow> Return (Some (m(c \<mapsto> ls))))"

text \<open>
  The user's map is mutated in place, so a panic in the second assignment would leave the
  first applied; both assignments are to the same map, so the second cannot panic when the
  first did not.
\<close>

definition AddActivityLog ::
  "libs \<Rightarrow> 64 word \<Rightarrow> User \<Rightarrow> string \<Rightarrow> string \<Rightarrow> string \<Rightarrow> table
     \<Rightarrow> (bool \<times> User \<times> table) outcome" where
  "AddActivityLog L now us actionType des ip db =
     (case (if \<not> has_key (logs us) actionType then assign (logs us) actionType []
            else Return (logs us)) of
        NilPanic \<Rightarrow> NilPanic
      | Return logs1 \<Rightarrow>
         (case assign logs1 actionType
                 (index_logs logs1 actionType @
                    [Some \<lparr>Ts = now, Ip = ip, LogType = actionType, Desc = des\<rparr>]) of
            NilPanic \<Rightarrow> NilPanic
          | Return logs2 \<Rightarrow>
              (let us' = us\<lparr>logs := logs2\<rparr>;
                   (persisted, db') = persist L us' db
               in Return (persisted, us', db'))))"

definition GetAllActivity :: "User \<Rightarrow> logmap" where
  "GetAllActivity us = logs us"

subsection \<open>Text in JSON\<close>

text \<open>
  \<open>encoding/json\<close> writes a Go string coerced to valid UTF-8: it walks the bytes with
  \<open>utf8.DecodeRuneInString\<close> and writes the replacement rune U+FFFD for every byte at which
  no valid encoding starts. \<open>rune_size\<close> is the width of the encoding that starts the
  string, following the ranges of package \<open>unicode/utf8\<close>, and 0 where the decoder reports
  an error. \<open>coerce_from k\<close> copies \<open>k\<close> bytes (the rest of an encoding already accepted)
  and then goes on rune by rune. Read back, the text is the coerced string.
\<close>

definition cont :: "nat \<Rightarrow> nat \<Rightarrow> char \<Rightarrow> bool" where
  "cont lo hi c \<longleftrightarrow> lo \<le> of_char c \<and> (of_char c :: nat) \<le> hi"

fun rune_size :: "string \<Rightarrow> nat" where
  "rune_size [] = 0"
| "rune_size (c # cs) =
     (let b = (of_char c :: nat) in
      if b < 0x80 then 1
      else if 0xC2 \<le> b \<and> b \<le> 0xDF then
        (case cs of
           c1 # _ \<Rightarrow> if cont 0x80 0xBF c1 then 2 else 0
         | _ \<Rightarrow> 0)
      else if 0xE0 \<le> b \<and> b \<le> 0xEF then
        (case cs of
           c1 # c2 # _ \<Rightarrow>
             if cont (if b = 0xE0 then 0xA0 else 0x80) (if b = 0xED then 0x9F else 0xBF) c1 \<and>
                cont 0x80 0xBF c2
             then 3 else 0
         | _ \<Rightarrow> 0)
      else if 0xF0 \<le> b \<and> b \<le> 0xF4 then
        (case cs of
           c1 # c2 # c3 # _ \<Rightarrow>
             if cont (if b = 0xF0 then 0x90 else 0x80) (if b = 0xF4 then 0x8F else 0xBF) c1 \<and>
                cont 0x80 0xBF c2 \<and> cont 0x80 0xBF c3
             then 4 else 0
         | _ \<Rightarrow> 0)
      else 0)"

fun coerce_from :: "nat \<Rightarrow> string \<Rightarrow> string" where
  "coerce_from k [] = []"
| "coerce_from 0 (c # cs) =
     (if rune_size (c # cs) = 0 then [CHR 0xEF, CHR 0xBF, CHR 0xBD] @ coerce_from 0 cs
      else c # coerce_from (rune_size (c # cs) - 1) cs)"
| "coerce_from (Suc k) (c # cs) = c # coerce_from k cs"

definition json_coerce :: "string \<Rightarrow> string" where
  "json_coerce s = coerce_from 0 s"

text \<open>\<open>utf8.ValidString\<close>: every byte belongs to a valid encoding.\<close>

fun valid_from :: "nat \<Rightarrow> string \<Rightarrow> bool" where
  "valid_from k [] = (k = 0)"
| "valid_from 0 (c # cs) =
     (rune_size (c # cs) \<noteq> 0 \<and> valid_from (rune_size (c # cs) - 1) cs)"
| "valid_from (Suc k) (c # cs) = valid_from k cs"

definition valid_utf8 :: "string \<Rightarrow> bool" where
  "valid_utf8 s = valid_from 0 s"

definition valid_line :: "LogLine option \<Rightarrow> bool" where
  "valid_line l =
     (case l of
        None \<Rightarrow> True
      | Some x \<Rightarrow> valid_utf8 (Ip x) \<and> valid_utf8 (LogType x) \<and> valid_utf8 (Desc x))"

text \<open>The category names of a log map are valid UTF-8; so is all its text.\<close>

definition valid_keys :: "logmap \<Rightarrow> bool" where
  "valid_keys lm = (case lm of None \<Rightarrow> True | Some m \<Rightarrow> (\<forall>c. m c \<noteq> None \<longrightarrow> valid_utf8 c))"

definition valid_logs :: "logmap \<Rightarrow> bool" where
  "valid_logs lm =
     (case lm of
        None \<Rightarrow> True
      | Some m \<Rightarrow> (\<forall>c ls. m c = Some ls \<longrightarrow> valid_utf8 c \<and> (\<forall>l \<in> set ls. valid_line l)))"

definition coerce_line :: "LogLine option \<Rightarrow> LogLine option" where
  "coerce_line l =
     map_option (\<lambda>x. \<lparr>Ts = Ts x, Ip = json_coerce (Ip x), LogType = json_coerce (LogType x),
                      Desc = json_coerce (Desc x)\<rparr>) l"

text \<open>The log map with the text of every line coerced; the category names are left.\<close>

definition coerce_logs :: "logmap \<Rightarrow> logmap" where
  "coerce_logs lm = map_option (\<lambda>m c. map_option (map coerce_line) (m c)) lm"

subsection \<open>Notions used to state the properties\<close>

text \<open>The item \<open>persist\<close> writes for a user: the map of its five attributes.\<close>

definition stored_item :: "libs \<Rightarrow> User \<Rightarrow> item" where
  "stored_item L us =
     map_of [(cPrimKey, uid us), (''key'', key us),
             (''info'', Marshal_info L (RegTs us) (RegIp us)),
             (''logs'', Marshal_logs L (logs us)), (''enabled'', Enabled us)]"

text \<open>
  What \<open>encoding/json\<close> does with the two texts of this user: read back, the info gives
  the time and the coerced address; the log text is read without error and, when the
  category names are valid UTF-8, gives the log map with the text of its lines coerced.
\<close>

definition encoding_json :: "libs \<Rightarrow> User \<Rightarrow> bool" where
  "encoding_json L us \<longleftrightarrow>
     Unmarshal_info L (Marshal_info L (RegTs us) (RegIp us)) =
       JsonObject (RegTs us) (json_coerce (RegIp us)) \<and>
     Unmarshal_logs L (Marshal_logs L (logs us)) \<noteq> None \<and>
     (valid_keys (logs us) \<longrightarrow>
        Unmarshal_logs L (Marshal_logs L (logs us)) = Some (coerce_logs (logs us)))"

text \<open>The library gives back the values it encoded for this user.\<close>

definition json_roundtrip :: "libs \<Rightarrow> User \<Rightarrow> bool" where
  "json_roundtrip L us \<longleftrightarrow>
     Unmarshal_info L (Marshal_info L (RegTs us) (RegIp us)) = JsonObject (RegTs us) (RegIp us) \<and>
     Unmarshal_logs L (Marshal_logs L (logs us)) = Some (logs us)"

text \<open>The weaker property: the library reads what it encoded for this user as an object.\<close>

definition json_decodable :: "libs \<Rightarrow> User \<Rightarrow> bool" where
  "json_decodable L us \<longleftrightarrow>
     Unmarshal_info L (Marshal_info L (RegTs us) (RegIp us)) \<noteq> JsonError \<and>
     Unmarshal_info L (Marshal_info L (RegTs us) (RegIp us)) \<noteq> JsonNull \<and>
     Unmarshal_logs L (Marshal_logs L (logs us)) \<noteq> None"

text \<open>The line \<open>AddActivityLog\<close> appends to category \<open>c\<close> for a time, description and address.\<close>

definition entry :: "string \<Rightarrow> 64 word \<times> string \<times> string \<Rightarrow> LogLine option" where
  "entry c e =
     (case e of (now, des, ip) \<Rightarrow> Some \<lparr>Ts = now, Ip = ip, LogType = c, Desc = des\<rparr>)"

text \<open>
  A caller appending several entries to one category, one \<open>AddActivityLog\<close> call for each.
  The triple is the result of the latest call, or the starting triple when there is none.
\<close>

fun AddActivityLogs ::
  "libs \<Rightarrow> string \<Rightarrow> (64 word \<times> string \<times> string) list \<Rightarrow> bool \<times> User \<times> table
     \<Rightarrow> (bool \<times> User \<times> table) outcome" where
  "AddActivityLogs L c [] r = Return r"
| "AddActivityLogs L c ((now, des, ip) # es) (persisted, us, db) =
     (case AddActivityLog L now us c des ip db of
        NilPanic \<Rightarrow> NilPanic
      | Return r \<Rightarrow> AddActivityLogs L c es r)"

subsection \<open>Sample data\<close>

text \<open>
  Small stand-ins for the libraries, on which the model runs. The derived key is the
  password and the salt padded to the key length; Base64 is the identity. A JSON text is
  a body between braces, with the strings coerced as \<open>encoding/json\<close> does: the info text
  carries the address (the time is \<open>demo_now\<close>), the log text the descriptions of the
  \<open>account\<close> lines, each closed by a semicolon. The text \<open>null\<close> is the JSON null; a text
  without the braces is a syntax error.
\<close>

definition demo_now :: "64 word" where
  "demo_now = 1445000000"

definition unbrace :: "string \<Rightarrow> string option" where
  "unbrace s =
     (case s of
        [] \<Rightarrow> None
      | c # cs \<Rightarrow> if c = CHR ''{'' \<and> cs \<noteq> [] \<and> last cs = CHR ''}''
                  then Some (butlast cs) else None)"

fun split_semi :: "string \<Rightarrow> string \<Rightarrow> string list" where
  "split_semi acc [] = []"
| "split_semi acc (c # cs) =
     (if c = CHR '';'' then rev acc # split_semi [] cs else split_semi (c # acc) cs)"

definition demo_line :: "string \<Rightarrow> LogLine option" where
  "demo_line d = Some \<lparr>Ts = demo_now, Ip = ''10.0.0.1'', LogType = ''account'', Desc = d\<rparr>"

definition demo_libs :: libs where
  "demo_libs =
     \<lparr>pbkdf2_Key = (\<lambda>password salt iter keyLen.
                     take keyLen (password @ salt @ replicate keyLen (CHR ''0''))),
      base64_EncodeToString = (\<lambda>b. b),
      Marshal_info = (\<lambda>ts ip. ''{'' @ json_coerce ip @ ''}''),
      Marshal_logs = (\<lambda>lm. case lm of
                              None \<Rightarrow> ''null''
                            | Some m \<Rightarrow>
                                ''{'' @ concat (map (\<lambda>l. case l of
                                                         None \<Rightarrow> []
                                                       | Some x \<Rightarrow> json_coerce (Desc x) @ '';'')
                                          (case m ''account'' of None \<Rightarrow> [] | Some ls \<Rightarrow> ls))
                                    @ ''}''),
      Unmarshal_info = (\<lambda>s. if s = ''null'' then JsonNull
                             else case unbrace s of
                                    None \<Rightarrow> JsonError
                                  | Some ip \<Rightarrow> JsonObject demo_now ip),
      Unmarshal_logs = (\<lambda>s. if s = ''null'' then Some None
                             else case unbrace s of
                                    None \<Rightarrow> None
                                  | Some body \<Rightarrow>
                                      Some (Some (if body = [] then Map.empty
                                                  else [''account'' \<mapsto>
                                                    map demo_line (split_semi [] body)])))\<rparr>"

definition demo_model :: Model where
  "demo_model = \<lparr>prefix = ''pit'', secret = ''s3cret'', tableName = ''pit_users''\<rparr>"

definition empty_table :: table where
  "empty_table = \<lparr>rows = [], get_fails = False, put_fails = False, scan_fails = False\<rparr>"

text \<open>The account that registering \<open>a+b@x.com\<close> with password \<open>pw1\<close> creates, and the table after it.\<close>

definition ab_user :: User where
  "ab_user = \<lparr>uid = ''ab@x.com'', key = HashPassword demo_libs demo_model ''pw1'',
              Enabled = ''1'', logs = Some Map.empty, RegTs = demo_now, RegIp = ''10.0.0.1'',
              md = demo_model\<rparr>"

definition ab_table :: table where
  "ab_table = empty_table\<lparr>rows := [(''ab@x.com'', stored_item demo_libs ab_user)]\<rparr>"

definition ab_table_off :: table where
  "ab_table_off =
     empty_table\<lparr>rows := [(''ab@x.com'', stored_item demo_libs (ab_user\<lparr>Enabled := ''0''\<rparr>))]\<rparr>"

definition demo_entries :: "(64 word \<times> string \<times> string) list" where
  "demo_entries = [(demo_now, ''a'', ''10.0.0.1''), (demo_now, ''b'', ''10.0.0.1'')]"

definition ab_user2 :: User where
  "ab_user2 = ab_user\<lparr>logs := Some [''account'' \<mapsto> map (entry ''account'') demo_entries]\<rparr>"

definition ab_table2 :: table where
  "ab_table2 = empty_table\<lparr>rows := [(''ab@x.com'', stored_item demo_libs ab_user2)]\<rparr>"

text \<open>
  The account registered over \<open>ab_user\<close> by a second call whose read of the table fails,
  and the table after it.
\<close>

definition other_user :: User where
  "other_user = \<lparr>uid = ''ab@x.com'', key = ''other'', Enabled = ''1'', logs = Some Map.empty,
                 RegTs = demo_now, RegIp = ''10.0.0.2'', md = demo_model\<rparr>"

definition other_table :: table where
  "other_table =
     empty_table\<lparr>rows := [(''ab@x.com'', stored_item demo_libs other_user)],
                  get_fails := True\<rparr>"

text \<open>
  An account whose origin address and one description end in the byte E9 (Latin-1 for an
  accented e), which is not valid UTF-8; the table after persisting it; and the account
  with those texts coerced.
\<close>

definition cafe :: string where
  "cafe = ''caf'' @ [CHR 0xE9]"

definition cafe_coerced :: string where
  "cafe_coerced = ''caf'' @ [CHR 0xEF, CHR 0xBF, CHR 0xBD]"

definition latin_user :: User where
  "latin_user = ab_user\<lparr>RegIp := cafe, logs := Some [''account'' \<mapsto> [demo_line cafe]]\<rparr>"

definition latin_table :: table where
  "latin_table = empty_table\<lparr>rows := [(''ab@x.com'', stored_item demo_libs latin_user)]\<rparr>"

definition latin_reloaded :: User where
  "latin_reloaded =
     ab_user\<lparr>RegIp := cafe_coerced, logs := Some [''account'' \<mapsto> [demo_line cafe_coerced]]\<rparr>"

text \<open>A table whose only item carries the JSON null as its info.\<close>

definition poison_table :: table where
  "poison_table =
     empty_table\<lparr>rows := [(''eve@x.com'',
        [''key'' \<mapsto> ''k'', ''info'' \<mapsto> ''null'', ''logs'' \<mapsto> ''{}'', ''enabled'' \<mapsto> ''1''])]\<rparr>"

text \<open>A table whose only item carries the JSON null as its logs, and the account it loads as.\<close>

definition nil_table :: table where
  "nil_table =
     empty_table\<lparr>rows := [(''nil@x.com'',
        [''key'' \<mapsto> ''k'', ''info'' \<mapsto> ''{10.0.0.1}'', ''logs'' \<mapsto> ''null'',
         ''enabled'' \<mapsto> ''1''])]\<rparr>"

definition nil_user :: User where
  "nil_user = \<lparr>uid = ''nil@x.com'', key = ''k'', Enabled = ''1'', logs = None,
               RegTs = demo_now, RegIp = ''10.0.0.1'', md = demo_model\<rparr>"

text \<open>The table of \<open>ab_user\<close> with the enabled attribute overwritten by \<open>2\<close>.\<close>

definition odd_table :: table where
  "odd_table =
     empty_table\<lparr>rows := [(''ab@x.com'', (stored_item demo_libs ab_user)(''enabled'' \<mapsto> ''2''))]\<rparr>"

section \<open>Properties\<close>

subsection \<open>Text\<close>

lemma valid_from_coerce: "valid_from k s \<Longrightarrow> coerce_from k s = s"
proof (induction s arbitrary: k)
  case Nil
  then show ?case by simp
next
  case (Cons c cs)
  then show ?case by (cases k) auto
qed

lemma valid_coerce: "valid_utf8 s \<Longrightarrow> json_coerce s = s"
  by (simp add: valid_utf8_def json_coerce_def valid_from_coerce)

lemma ascii_valid_from: "\<forall>c \<in> set s. (of_char c :: nat) < 0x80 \<Longrightarrow> valid_from 0 s"
  by (induction s) (simp_all add: Let_def)

lemma ascii_valid: "\<forall>c \<in> set s. (of_char c :: nat) < 0x80 \<Longrightarrow> valid_utf8 s"
  by (simp add: valid_utf8_def ascii_valid_from)

lemma valid_coerce_line: "valid_line l \<Longrightarrow> coerce_line l = l"
  by (cases l) (simp_all add: valid_line_def coerce_line_def valid_coerce)

lemma valid_logs_keys: "valid_logs lm \<Longrightarrow> valid_keys lm"
  by (auto simp: valid_logs_def valid_keys_def split: option.splits)

lemma valid_coerce_logs: "valid_logs lm \<Longrightarrow> coerce_logs lm = lm"
proof (cases lm)
  case None
  then show ?thesis by (simp add: coerce_logs_def)
next
  case (Some m)
  assume v: "valid_logs lm"
  have "map_option (map coerce_line) (m c) = m c" for c
  proof (cases "m c")
    case None
    then show ?thesis by simp
  next
    case (Some ls)
    with v \<open>lm = Some m\<close> have "\<forall>l \<in> set ls. valid_line l"
      by (auto simp: valid_logs_def)
    then have "map coerce_line ls = ls"
      by (induction ls) (simp_all add: valid_coerce_line)
    with Some show ?thesis by simp
  qed
  then show ?thesis using Some by (simp add: coerce_logs_def)
qed

lemma valid_logs_append:
  assumes v: "valid_logs (Some m)" and c: "valid_utf8 c" and n: "\<forall>l \<in> set new. valid_line l"
  shows "valid_logs (Some (m(c \<mapsto> index_logs (Some m) c @ new)))"
proof -
  have old: "\<forall>l \<in> set (index_logs (Some m) c). valid_line l"
  proof (cases "m c")
    case None
    then show ?thesis by (simp add: index_logs_def)
  next
    case (Some ls)
    with v show ?thesis by (simp add: index_logs_def valid_logs_def)
  qed
  have "valid_utf8 c' \<and> (\<forall>l \<in> set ls. valid_line l)"
    if "(m(c \<mapsto> index_logs (Some m) c @ new)) c' = Some ls" for c' ls
  proof (cases "c' = c")
    case True
    with that have "ls = index_logs (Some m) c @ new" by simp
    with old n c True show ?thesis by auto
  next
    case False
    with that have "m c' = Some ls" by simp
    with v show ?thesis by (simp add: valid_logs_def)
  qed
  then show ?thesis by (simp add: valid_logs_def)
qed

lemma encoding_json_roundtrip:
  "encoding_json L us \<Longrightarrow> valid_utf8 (RegIp us) \<Longrightarrow> valid_logs (logs us) \<Longrightarrow>
   json_roundtrip L us"
  by (simp add: encoding_json_def json_roundtrip_def valid_coerce valid_logs_keys
      valid_coerce_logs)

subsection \<open>The table and the codec\<close>

lemma Replace_plus: "Replace s (CHR ''+'') [] = filter (\<lambda>c. c \<noteq> CHR ''+'') s"
  by (induction s) (simp_all add: Replace_def)

lemma persist_cases:
  "persist L us db =
     (if put_fails db then (False, db)
      else (True, db\<lparr>rows := AList.update (uid us) (stored_item L us) (rows db)\<rparr>))"
  by (simp add: persist_def PutItem_def stored_item_def)

lemma persist_True:
  "persist L us db = (True, db') \<Longrightarrow>
   map_of (rows db') (uid us) = Some (stored_item L us) \<and> get_fails db' = get_fails db"
  by (auto simp: persist_cases update_conv' split: if_splits)

lemma load_stored_item:
  "json_roundtrip L us \<Longrightarrow>
   load_user L um (uid us) (stored_item L us) = Return (Some (us\<lparr>md := um\<rparr>))"
  by (simp add: load_user_def stored_item_def json_roundtrip_def cPrimKey_def)

lemma load_stored_decodable:
  "json_decodable L us \<Longrightarrow>
   \<exists>a. load_user L um (uid us) (stored_item L us) = Return (Some a) \<and>
       uid a = uid us \<and> key a = key us \<and> Enabled a = Enabled us \<and> md a = um"
  by (cases "Unmarshal_info L (Marshal_info L (RegTs us) (RegIp us))")
     (auto simp: load_user_def stored_item_def json_decodable_def cPrimKey_def)

text \<open>What the lookup of a stored item gives with \<open>encoding/json\<close>: the texts coerced.\<close>

lemma load_stored_coerced:
  "encoding_json L us \<Longrightarrow>
   \<exists>lm. Unmarshal_logs L (Marshal_logs L (logs us)) = Some lm \<and>
        (valid_keys (logs us) \<longrightarrow> lm = coerce_logs (logs us)) \<and>
        load_user L um (uid us) (stored_item L us) =
          Return (Some (us\<lparr>RegIp := json_coerce (RegIp us), logs := lm, md := um\<rparr>))"
  by (cases "Unmarshal_logs L (Marshal_logs L (logs us))")
     (auto simp: load_user_def stored_item_def encoding_json_def cPrimKey_def)

lemma load_user_Some:
  "load_user L um u data = Return (Some user) \<Longrightarrow>
   uid user = u \<and> md user = um \<and> data ''key'' = Some (key user) \<and>
   data ''enabled'' = Some (Enabled user)"
  by (auto simp: load_user_def split: option.splits info_json.splits)

lemma load_user_uid_attr: "load_user L um u (it(''uid'' \<mapsto> k)) = load_user L um u it"
  by (simp add: load_user_def cong: option.case_cong info_json.case_cong)

lemma AdminGet_roundtrip:
  assumes "map_of (rows db) (uid us) = Some (stored_item L us)"
    and "\<not> get_fails db" and "json_roundtrip L us"
  shows "AdminGetUserInfoByID L um db (uid us) = Return (Some (us\<lparr>md := um\<rparr>))"
  using assms by (simp add: AdminGetUserInfoByID_def GetItemConsistent_def load_stored_item)

lemma AdminGet_stored:
  assumes "map_of (rows db) (uid us) = Some (stored_item L us)"
    and "\<not> get_fails db" and "json_decodable L us"
  shows "\<exists>a. AdminGetUserInfoByID L um db (uid us) = Return (Some a) \<and>
       uid a = uid us \<and> key a = key us \<and> Enabled a = Enabled us \<and> md a = um"
  using assms load_stored_decodable [of L us um]
  by (simp add: AdminGetUserInfoByID_def GetItemConsistent_def)

lemma AdminGet_coerced:
  assumes "map_of (rows db) (uid us) = Some (stored_item L us)"
    and "\<not> get_fails db" and "encoding_json L us"
  shows "\<exists>lm. Unmarshal_logs L (Marshal_logs L (logs us)) = Some lm \<and>
        (valid_keys (logs us) \<longrightarrow> lm = coerce_logs (logs us)) \<and>
        AdminGetUserInfoByID L um db (uid us) =
          Return (Some (us\<lparr>RegIp := json_coerce (RegIp us), logs := lm, md := um\<rparr>))"
  using assms load_stored_coerced [of L us um]
  by (simp add: AdminGetUserInfoByID_def GetItemConsistent_def)

lemma GetUserInfo_cases:
  "GetUserInfo L um db u password = Return (Some user) \<longleftrightarrow>
     AdminGetUserInfoByID L um db u = Return (Some user) \<and>
     key user = HashPassword L um password \<and> Enabled user \<noteq> ''0''"
  by (auto simp: GetUserInfo_def split: outcome.splits option.splits)

subsection \<open>Registration\<close>

lemma Register_result:
  "RegisterUserPlainKey L um now db u k ip = (Return (Inr us), db') \<Longrightarrow>
   us = \<lparr>uid = filter (\<lambda>c. c \<noteq> CHR ''+'') u, key = k, Enabled = ''1'', logs = Some Map.empty,
         RegTs = now, RegIp = ip, md = um\<rparr> \<and>
   AdminGetUserInfoByID L um db (filter (\<lambda>c. c \<noteq> CHR ''+'') u) = Return None \<and>
   \<not> put_fails db \<and>
   db' = db\<lparr>rows := AList.update (uid us) (stored_item L us) (rows db)\<rparr>"
  by (cases "put_fails db")
     (auto simp: RegisterUserPlainKey_def Replace_plus Let_def persist_cases
           split: outcome.splits option.splits)

text \<open>A registration that finds no account under the stripped uid and can write, creates it.\<close>

lemma Register_creates:
  "AdminGetUserInfoByID L um db (filter (\<lambda>c. c \<noteq> CHR ''+'') u) = Return None \<Longrightarrow>
   \<not> put_fails db \<Longrightarrow>
   RegisterUserPlainKey L um now db u k ip =
     (Return (Inr \<lparr>uid = filter (\<lambda>c. c \<noteq> CHR ''+'') u, key = k, Enabled = ''1'',
                   logs = Some Map.empty, RegTs = now, RegIp = ip, md = um\<rparr>),
      db\<lparr>rows := AList.update (filter (\<lambda>c. c \<noteq> CHR ''+'') u)
          (stored_item L \<lparr>uid = filter (\<lambda>c. c \<noteq> CHR ''+'') u, key = k, Enabled = ''1'',
                           logs = Some Map.empty, RegTs = now, RegIp = ip, md = um\<rparr>)
          (rows db)\<rparr>)"
  by (simp add: RegisterUserPlainKey_def Replace_plus Let_def persist_cases)

lemma Register_store_error:
  "AdminGetUserInfoByID L um db (filter (\<lambda>c. c \<noteq> CHR ''+'') u) = Return None \<Longrightarrow>
   put_fails db \<Longrightarrow>
   RegisterUserPlainKey L um now db u k ip = (Return (Inl ErrorStoringUserData), db)"
  by (simp add: RegisterUserPlainKey_def Replace_plus Let_def persist_cases)

lemma AdminGet_read_error: "get_fails db \<Longrightarrow> AdminGetUserInfoByID L um db u = Return None"
  by (simp add: AdminGetUserInfoByID_def GetItemConsistent_def)

subsection \<open>Mutation\<close>

lemma DisableUser_result:
  "DisableUser L us db = (fst (persist L (us\<lparr>Enabled := ''0''\<rparr>) db), us\<lparr>Enabled := ''0''\<rparr>,
                          snd (persist L (us\<lparr>Enabled := ''0''\<rparr>) db))"
  by (simp add: DisableUser_def Let_def split: prod.splits)

lemma EnableUser_result:
  "EnableUser L us db = (fst (persist L (us\<lparr>Enabled := ''1''\<rparr>) db), us\<lparr>Enabled := ''1''\<rparr>,
                         snd (persist L (us\<lparr>Enabled := ''1''\<rparr>) db))"
  by (simp add: EnableUser_def Let_def split: prod.splits)

lemma UpdateUser_result:
  "UpdateUser L us k db =
     (fst (persist L (us\<lparr>key := HashPassword L (md us) k\<rparr>) db),
      us\<lparr>key := HashPassword L (md us) k\<rparr>,
      snd (persist L (us\<lparr>key := HashPassword L (md us) k\<rparr>) db))"
  by (simp add: UpdateUser_def Let_def split: prod.splits)

lemma DisableUser_True:
  "DisableUser L us db = (True, us1, db1) \<Longrightarrow>
   us1 = us\<lparr>Enabled := ''0''\<rparr> \<and> persist L (us\<lparr>Enabled := ''0''\<rparr>) db = (True, db1)"
  by (auto simp: DisableUser_def Let_def split: prod.splits)

lemma EnableUser_True:
  "EnableUser L us db = (True, us1, db1) \<Longrightarrow>
   us1 = us\<lparr>Enabled := ''1''\<rparr> \<and> persist L (us\<lparr>Enabled := ''1''\<rparr>) db = (True, db1)"
  by (auto simp: EnableUser_def Let_def split: prod.splits)

lemma index_logs_upd: "index_logs (Some (m(c \<mapsto> ls))) c = ls"
  by (simp add: index_logs_def)

lemma index_logs_other: "c' \<noteq> c \<Longrightarrow> index_logs (Some (m(c \<mapsto> ls))) c' = index_logs (Some m) c'"
  by (simp add: index_logs_def)

text \<open>On the nil map the call panics; otherwise it appends, persists and returns.\<close>

lemma AddActivityLog_nil: "logs us = None \<Longrightarrow> AddActivityLog L now us c des ip db = NilPanic"
  by (simp add: AddActivityLog_def has_key_def assign_def)

lemma AddActivityLog_result:
  "logs us = Some m \<Longrightarrow>
   AddActivityLog L now us c des ip db =
     Return (fst (persist L (us\<lparr>logs := Some (m(c \<mapsto> index_logs (Some m) c @
                                   [entry c (now, des, ip)]))\<rparr>) db),
             us\<lparr>logs := Some (m(c \<mapsto> index_logs (Some m) c @ [entry c (now, des, ip)]))\<rparr>,
             snd (persist L (us\<lparr>logs := Some (m(c \<mapsto> index_logs (Some m) c @
                                   [entry c (now, des, ip)]))\<rparr>) db))"
  by (cases "m c")
     (simp_all add: AddActivityLog_def has_key_def assign_def index_logs_def entry_def Let_def
        split: prod.splits)

lemma AddActivityLog_Return:
  assumes "AddActivityLog L now us c des ip db = Return (p, us', db')"
  shows "\<exists>m. logs us = Some m \<and>
       us' = us\<lparr>logs := Some (m(c \<mapsto> index_logs (Some m) c @ [entry c (now, des, ip)]))\<rparr> \<and>
       persist L us' db = (p, db')"
proof (cases "logs us")
  case None
  with assms show ?thesis by (simp add: AddActivityLog_nil)
next
  case (Some m)
  let ?U = "us\<lparr>logs := Some (m(c \<mapsto> index_logs (Some m) c @ [entry c (now, des, ip)]))\<rparr>"
  from assms have "(fst (persist L ?U db), ?U, snd (persist L ?U db)) = (p, us', db')"
    unfolding AddActivityLog_result [OF Some] by (simp only: outcome.inject)
  then have 1: "fst (persist L ?U db) = p" and 2: "?U = us'" and 3: "snd (persist L ?U db) = db'"
    unfolding prod.inject by blast+
  have 4: "persist L ?U db = (p, db')"
    using 1 3 by (simp only: prod_eq_iff fst_conv snd_conv)
  show ?thesis
  proof (intro exI conjI)
    show "logs us = Some m" by fact
    show "us' = ?U" by (rule 2 [symmetric])
    show "persist L us' db = (p, db')" unfolding 2 [symmetric] by (rule 4)
  qed
qed

lemma AddActivityLog_flags:
  "AddActivityLog L now us c des ip db = Return (p, us', db') \<Longrightarrow> get_fails db' = get_fails db"
proof -
  assume "AddActivityLog L now us c des ip db = Return (p, us', db')"
  from AddActivityLog_Return [OF this] have "persist L us' db = (p, db')" by blast
  then show ?thesis by (auto simp: persist_cases split: if_splits)
qed

lemma AddActivityLog_persisted:
  "AddActivityLog L now us c des ip db = Return (True, us', db') \<Longrightarrow>
   map_of (rows db') (uid us') = Some (stored_item L us') \<and> get_fails db' = get_fails db"
proof -
  assume "AddActivityLog L now us c des ip db = Return (True, us', db')"
  from AddActivityLog_Return [OF this] have "persist L us' db = (True, db')" by blast
  then show ?thesis by (rule persist_True)
qed

lemma AddActivityLogs_snoc:
  "AddActivityLogs L c (es @ [(now, des, ip)]) r =
     (case AddActivityLogs L c es r of
        NilPanic \<Rightarrow> NilPanic
      | Return (p, us, db) \<Rightarrow> AddActivityLog L now us c des ip db)"
proof (induction es arbitrary: r)
  case Nil
  then show ?case by (cases r) (simp split: outcome.splits)
next
  case (Cons e es)
  then show ?case by (cases e; cases r) (simp split: outcome.splits)
qed

lemma AddActivityLogs_flags:
  "AddActivityLogs L c es r = Return r' \<Longrightarrow> get_fails (snd (snd r')) = get_fails (snd (snd r))"
proof (induction es arbitrary: r)
  case Nil
  then show ?case by simp
next
  case (Cons e es)
  obtain now des ip where e: "e = (now, des, ip)" by (cases e)
  obtain p us db where r: "r = (p, us, db)" by (cases r)
  from Cons.prems obtain r1 where 1: "AddActivityLog L now us c des ip db = Return r1"
    and 2: "AddActivityLogs L c es r1 = Return r'"
    by (auto simp: e r split: outcome.splits)
  obtain p1 u1 d1 where r1: "r1 = (p1, u1, d1)" by (cases r1)
  from AddActivityLog_flags [OF 1 [unfolded r1]] Cons.IH [OF 2]
  show ?case by (simp add: r r1)
qed

text \<open>In memory, the calls append their lines to the category in call order.\<close>

lemma AddActivityLogs_memory:
  "AddActivityLogs L c es (p, us, db) = Return (p', us', db') \<Longrightarrow> es \<noteq> [] \<Longrightarrow>
   \<exists>m. logs us = Some m \<and>
       us' = us\<lparr>logs := Some (m(c \<mapsto> index_logs (Some m) c @ map (entry c) es))\<rparr>"
proof (induction es arbitrary: p us db)
  case Nil
  then show ?case by simp
next
  case (Cons e es)
  obtain now des ip where e: "e = (now, des, ip)" by (cases e)
  from Cons.prems(1) obtain r1 where 1: "AddActivityLog L now us c des ip db = Return r1"
    and 2: "AddActivityLogs L c es r1 = Return (p', us', db')"
    by (auto simp: e split: outcome.splits)
  obtain p1 u1 d1 where r1: "r1 = (p1, u1, d1)" by (cases r1)
  from AddActivityLog_Return [OF 1 [unfolded r1]]
  obtain m where m: "logs us = Some m"
    and u1: "u1 = us\<lparr>logs := Some (m(c \<mapsto> index_logs (Some m) c @ [entry c (now, des, ip)]))\<rparr>"
    by blast
  let ?m1 = "m(c \<mapsto> index_logs (Some m) c @ [entry c (now, des, ip)])"
  have l1: "logs u1 = Some ?m1" unfolding u1 by simp
  have "us' = us\<lparr>logs := Some (m(c \<mapsto> index_logs (Some m) c @ map (entry c) (e # es)))\<rparr>"
  proof (cases "es = []")
    case True
    from 2 have "r1 = (p', us', db')" unfolding True by simp
    then have "us' = u1" unfolding r1 by simp
    moreover have "map (entry c) (e # es) = [entry c (now, des, ip)]" by (simp add: True e)
    ultimately show ?thesis unfolding u1 by (simp only:)
  next
    case False
    from Cons.IH [OF 2 [unfolded r1] False]
    obtain m' where a: "logs u1 = Some m'"
      and b: "us' = u1\<lparr>logs := Some (m'(c \<mapsto> index_logs (Some m') c @ map (entry c) es))\<rparr>"
      by blast
    from a l1 have m': "m' = ?m1" by (simp only: option.inject)
    have 3: "us' = u1\<lparr>logs := Some (?m1(c \<mapsto> index_logs (Some ?m1) c @ map (entry c) es))\<rparr>"
      using b unfolding m' .
    have 4: "?m1(c \<mapsto> index_logs (Some ?m1) c @ map (entry c) es) =
        m(c \<mapsto> index_logs (Some m) c @ map (entry c) (e # es))"
      by (simp add: e index_logs_upd)
    have 5: "u1\<lparr>logs := x\<rparr> = us\<lparr>logs := x\<rparr>" for x
      unfolding u1 by simp
    show ?thesis unfolding 3 4 5 ..
  qed
  with m show ?case by blast
qed

text \<open>When the latest call has persisted, the table holds the item of the user it left.\<close>

lemma AddActivityLogs_persisted:
  assumes run: "AddActivityLogs L c es (p, us, db) = Return (True, us', db')" and ne: "es \<noteq> []"
  shows "map_of (rows db') (uid us') = Some (stored_item L us') \<and> get_fails db' = get_fails db"
proof -
  from ne obtain es0 e where es: "es = es0 @ [e]" by (cases es rule: rev_cases) auto
  obtain now des ip where e: "e = (now, des, ip)" by (cases e)
  from run obtain r0 where r0: "AddActivityLogs L c es0 (p, us, db) = Return r0"
    by (auto simp: es e AddActivityLogs_snoc split: outcome.splits)
  obtain p0 us0 db0 where t: "r0 = (p0, us0, db0)" by (cases r0)
  from AddActivityLogs_flags [OF r0]
  have f0: "get_fails db0 = get_fails db" by (simp add: t)
  from run have "AddActivityLog L now us0 c des ip db0 = Return (True, us', db')"
    by (simp add: es e AddActivityLogs_snoc r0 t)
  from AddActivityLog_persisted [OF this] f0 show ?thesis by simp
qed

subsection \<open>Listing\<close>

lemma scan_loop_row:
  "scan_loop L um ((it(cPrimKey \<mapsto> k)) # found) users =
     (case load_user L um k it of
        NilPanic \<Rightarrow> NilPanic
      | Return None \<Rightarrow> Return None
      | Return (Some user) \<Rightarrow> scan_loop L um found (users(k \<mapsto> user)))"
  by (simp add: cPrimKey_def load_user_uid_attr)

lemma scan_rows_Cons:
  "map (\<lambda>(k, it). it(cPrimKey \<mapsto> k)) ((k, it) # rs) =
     (it(cPrimKey \<mapsto> k)) # map (\<lambda>(k, it). it(cPrimKey \<mapsto> k)) rs"
  by simp

text \<open>When every item loads, the loop returns the map of all of them.\<close>

lemma scan_loop_complete:
  assumes "\<forall>(k, it) \<in> set rs. \<exists>a. load_user L um k it = Return (Some a)"
    and "distinct (map fst rs)"
  shows "\<exists>m. scan_loop L um (map (\<lambda>(k, it). it(cPrimKey \<mapsto> k)) rs) users = Return (Some m) \<and>
             dom m = dom users \<union> fst ` set rs \<and>
             (\<forall>(k, it) \<in> set rs. load_user L um k it = Return (m k)) \<and>
             (\<forall>k. k \<notin> fst ` set rs \<longrightarrow> m k = users k)"
  using assms
proof (induction rs arbitrary: users)
  case Nil
  then show ?case by simp
next
  case (Cons r rs)
  obtain k it where r: "r = (k, it)" by (cases r)
  from Cons.prems r obtain a where a: "load_user L um k it = Return (Some a)" by auto
  from Cons.prems r have rest: "\<forall>(k, it) \<in> set rs. \<exists>a. load_user L um k it = Return (Some a)"
    and d: "distinct (map fst rs)" and fresh: "k \<notin> fst ` set rs"
    by auto
  from Cons.IH [OF rest d, of "users(k \<mapsto> a)"]
  obtain m where m: "scan_loop L um (map (\<lambda>(k, it). it(cPrimKey \<mapsto> k)) rs) (users(k \<mapsto> a)) =
        Return (Some m)"
    and dm: "dom m = dom (users(k \<mapsto> a)) \<union> fst ` set rs"
    and all: "\<forall>(k, it) \<in> set rs. load_user L um k it = Return (m k)"
    and other: "\<forall>k'. k' \<notin> fst ` set rs \<longrightarrow> m k' = (users(k \<mapsto> a)) k'"
    by blast
  from other fresh have mk: "m k = Some a" by simp
  have "scan_loop L um (map (\<lambda>(k, it). it(cPrimKey \<mapsto> k)) (r # rs)) users = Return (Some m)"
    unfolding r scan_rows_Cons scan_loop_row a using m
    by (simp only: outcome.case option.case)
  moreover have "dom m = dom users \<union> fst ` set (r # rs)"
    using dm by (auto simp: r)
  moreover have "\<forall>(k, it) \<in> set (r # rs). load_user L um k it = Return (m k)"
    using all a mk by (auto simp: r)
  moreover have "\<forall>k'. k' \<notin> fst ` set (r # rs) \<longrightarrow> m k' = users k'"
    using other by (auto simp: r)
  ultimately show ?case by blast
qed

text \<open>When no item panics and one gives a JSON error, the loop returns nil.\<close>

lemma scan_loop_aborts:
  assumes "\<exists>(k, it) \<in> set rs. load_user L um k it = Return None"
    and "\<forall>(k, it) \<in> set rs. load_user L um k it \<noteq> NilPanic"
  shows "scan_loop L um (map (\<lambda>(k, it). it(cPrimKey \<mapsto> k)) rs) users = Return None"
  using assms
proof (induction rs arbitrary: users)
  case Nil
  then show ?case by simp
next
  case (Cons r rs)
  obtain k it where r: "r = (k, it)" by (cases r)
  show ?case
  proof (cases "load_user L um k it")
    case NilPanic
    with Cons.prems r show ?thesis by auto
  next
    case (Return x)
    show ?thesis
    proof (cases x)
      case None
      show ?thesis unfolding r scan_rows_Cons scan_loop_row Return None
        by (simp only: outcome.case option.case)
    next
      case (Some a)
      with Return Cons.prems r
      have "\<exists>(k, it) \<in> set rs. load_user L um k it = Return None"
        and "\<forall>(k, it) \<in> set rs. load_user L um k it \<noteq> NilPanic"
        by auto
      from Cons.IH [OF this]
      have "scan_loop L um (map (\<lambda>(k, it). it(cPrimKey \<mapsto> k)) rs) (users(k \<mapsto> a)) =
          Return None" .
      then show ?thesis
        unfolding r scan_rows_Cons scan_loop_row Return Some
        by (simp only: outcome.case option.case)
    qed
  qed
qed

subsection \<open>The sample data, run\<close>

lemma demo_coerce_ip: "json_coerce ''10.0.0.1'' = ''10.0.0.1''"
  by (rule valid_coerce, rule ascii_valid) simp

lemma demo_coerce_ip2: "json_coerce ''10.0.0.2'' = ''10.0.0.2''"
  by (rule valid_coerce, rule ascii_valid) simp

lemma demo_coerce_cafe: "json_coerce cafe = cafe_coerced"
  by (simp add: cafe_def cafe_coerced_def json_coerce_def Let_def)

lemma demo_cafe_invalid: "\<not> valid_utf8 cafe"
  by (simp add: cafe_def valid_utf8_def Let_def)

lemma demo_cafe_differs: "cafe \<noteq> cafe_coerced"
  by (simp add: cafe_def cafe_coerced_def)

lemma demo_info:
  "Unmarshal_info demo_libs (Marshal_info demo_libs demo_now ip) =
     JsonObject demo_now (json_coerce ip)"
  by (simp add: demo_libs_def unbrace_def)

lemma demo_logs_empty:
  "Unmarshal_logs demo_libs (Marshal_logs demo_libs (Some Map.empty)) = Some (Some Map.empty)"
  by (simp add: demo_libs_def unbrace_def)

lemma demo_register:
  "RegisterUser demo_libs demo_model demo_now empty_table ''a+b@x.com'' ''pw1'' ''10.0.0.1'' =
     (Return (Inr ab_user), ab_table)"
  by (simp add: RegisterUser_def RegisterUserPlainKey_def Replace_plus AdminGetUserInfoByID_def
      GetItemConsistent_def empty_table_def persist_cases ab_user_def ab_table_def Let_def)

lemma demo_decodable: "json_decodable demo_libs ab_user"
  by (simp add: json_decodable_def demo_info demo_logs_empty ab_user_def)

lemma demo_roundtrip: "json_roundtrip demo_libs ab_user"
  by (simp add: json_roundtrip_def demo_info demo_logs_empty ab_user_def demo_coerce_ip)

lemma demo_encoding: "encoding_json demo_libs ab_user"
  by (simp add: encoding_json_def demo_info demo_logs_empty ab_user_def coerce_logs_def)

lemma demo_valid: "valid_utf8 (RegIp ab_user) \<and> valid_logs (logs ab_user)"
  by (simp add: ab_user_def valid_logs_def, rule ascii_valid) simp

lemma demo_lookup:
  "AdminGetUserInfoByID demo_libs demo_model ab_table ''ab@x.com'' = Return (Some ab_user)"
  using AdminGet_roundtrip [of ab_table ab_user demo_libs demo_model] demo_roundtrip
  by (simp add: ab_table_def empty_table_def ab_user_def)

lemma demo_wrong: "HashPassword demo_libs demo_model ''pw2'' \<noteq> key ab_user"
  by (simp add: HashPassword_def demo_libs_def demo_model_def ab_user_def)

lemma demo_disable:
  "DisableUser demo_libs ab_user ab_table = (True, ab_user\<lparr>Enabled := ''0''\<rparr>, ab_table_off)"
  by (simp add: DisableUser_result persist_cases ab_table_def ab_table_off_def empty_table_def
      ab_user_def)

lemma demo_enable:
  "EnableUser demo_libs (ab_user\<lparr>Enabled := ''0''\<rparr>) ab_table_off = (True, ab_user, ab_table)"
  by (simp add: EnableUser_result persist_cases ab_table_def ab_table_off_def empty_table_def
      ab_user_def)

lemma demo_logs2:
  "logs ab_user2 = Some [''account'' \<mapsto> [demo_line ''a'', demo_line ''b'']]"
  by (simp add: ab_user2_def demo_entries_def entry_def demo_line_def)

lemma demo_marshal2: "Marshal_logs demo_libs (logs ab_user2) = ''{a;b;}''"
  by (simp add: demo_logs2 demo_libs_def demo_line_def json_coerce_def Let_def)

lemma demo_unmarshal2: "Unmarshal_logs demo_libs ''{a;b;}'' = Some (logs ab_user2)"
  by (simp add: demo_logs2 demo_libs_def unbrace_def)

lemma demo_valid2: "valid_logs (logs ab_user2)"
proof -
  have a: "valid_utf8 ''account''" and b: "valid_utf8 ''10.0.0.1''"
    and c: "valid_utf8 ''a''" and d: "valid_utf8 ''b''"
    by (rule ascii_valid, simp)+
  show ?thesis
    by (simp add: demo_logs2 valid_logs_def valid_line_def demo_line_def a b c d)
qed

lemma demo_encoding2: "encoding_json demo_libs ab_user2"
  by (simp add: encoding_json_def demo_marshal2 demo_unmarshal2 valid_coerce_logs demo_valid2)
     (simp add: ab_user2_def ab_user_def demo_info)

lemma demo_append:
  "AddActivityLogs demo_libs ''account'' demo_entries (False, ab_user, ab_table) =
     Return (True, ab_user2, ab_table2)"
proof -
  let ?u1 = "ab_user\<lparr>logs := Some [''account'' \<mapsto> [entry ''account'' (demo_now, ''a'', ''10.0.0.1'')]]\<rparr>"
  let ?t1 = "empty_table\<lparr>rows := [(''ab@x.com'', stored_item demo_libs ?u1)]\<rparr>"
  have 1: "AddActivityLog demo_libs demo_now ab_user ''account'' ''a'' ''10.0.0.1'' ab_table =
      Return (True, ?u1, ?t1)"
    by (subst AddActivityLog_result [of _ Map.empty])
       (simp_all add: ab_user_def index_logs_def persist_cases ab_table_def empty_table_def)
  have 2: "AddActivityLog demo_libs demo_now ?u1 ''account'' ''b'' ''10.0.0.1'' ?t1 =
      Return (True, ab_user2, ab_table2)"
    by (subst AddActivityLog_result
          [of _ "[''account'' \<mapsto> [entry ''account'' (demo_now, ''a'', ''10.0.0.1'')]]"])
       (simp_all add: ab_user_def ab_user2_def index_logs_def persist_cases ab_table2_def
          empty_table_def demo_entries_def)
  show ?thesis by (simp add: demo_entries_def 1 2)
qed

lemma demo_latin_persist: "persist demo_libs latin_user empty_table = (True, latin_table)"
  by (simp add: persist_cases empty_table_def latin_table_def latin_user_def ab_user_def)

lemma demo_latin_marshal: "Marshal_logs demo_libs (logs latin_user) = CHR ''{'' # cafe_coerced @ '';}''"
  using demo_coerce_cafe by (simp add: latin_user_def demo_libs_def demo_line_def)

lemma demo_latin_unmarshal:
  "Unmarshal_logs demo_libs (CHR ''{'' # cafe_coerced @ '';}'') = Some (logs latin_reloaded)"
  by (simp add: latin_reloaded_def demo_libs_def unbrace_def cafe_coerced_def)

lemma demo_latin_encoding: "encoding_json demo_libs latin_user"
proof -
  have "coerce_logs (logs latin_user) = logs latin_reloaded"
    by (auto simp: coerce_logs_def latin_user_def latin_reloaded_def coerce_line_def
        demo_line_def demo_coerce_cafe demo_coerce_ip fun_eq_iff)
       (rule valid_coerce, rule ascii_valid, simp)
  then show ?thesis
    by (simp add: encoding_json_def demo_latin_marshal demo_latin_unmarshal)
       (simp add: latin_user_def ab_user_def demo_info)
qed

lemma demo_latin_lookup:
  "AdminGetUserInfoByID demo_libs demo_model latin_table ''ab@x.com'' =
     Return (Some latin_reloaded)"
proof -
  have f: "uid latin_user = ''ab@x.com''" "RegTs latin_user = demo_now" "RegIp latin_user = cafe"
    "key latin_user = key ab_user" "Enabled latin_user = ''1''" "md ab_user = demo_model"
    by (simp_all add: latin_user_def ab_user_def)
  have "load_user demo_libs demo_model ''ab@x.com'' (stored_item demo_libs latin_user) =
      Return (Some \<lparr>uid = ''ab@x.com'', key = key ab_user, Enabled = ''1'',
        logs = logs latin_reloaded, RegTs = demo_now, RegIp = cafe_coerced, md = demo_model\<rparr>)"
    by (simp add: load_user_def stored_item_def cPrimKey_def f demo_info demo_coerce_cafe
        demo_latin_marshal demo_latin_unmarshal)
  moreover have "\<lparr>uid = ''ab@x.com'', key = key ab_user, Enabled = ''1'',
        logs = logs latin_reloaded, RegTs = demo_now, RegIp = cafe_coerced, md = demo_model\<rparr> =
      latin_reloaded"
    by (simp add: latin_reloaded_def ab_user_def)
  ultimately show ?thesis
    by (simp add: AdminGetUserInfoByID_def GetItemConsistent_def latin_table_def empty_table_def)
qed

lemma demo_nil_lookup:
  "AdminGetUserInfoByID demo_libs demo_model nil_table ''nil@x.com'' = Return (Some nil_user)"
  by (simp add: AdminGetUserInfoByID_def GetItemConsistent_def nil_table_def empty_table_def
      load_user_def nil_user_def demo_libs_def unbrace_def)

lemma demo_first:
  "RegisterUserPlainKey demo_libs demo_model demo_now empty_table ''a+b@x.com''
       (HashPassword demo_libs demo_model ''pw1'') ''10.0.0.1'' = (Return (Inr ab_user), ab_table)"
  using demo_register by (simp add: RegisterUser_def)

lemma demo_second_overwrites:
  "RegisterUserPlainKey demo_libs demo_model demo_now (ab_table\<lparr>get_fails := True\<rparr>)
       ''a+b@x.com'' ''other'' ''10.0.0.2'' = (Return (Inr other_user), other_table)"
  by (simp add: RegisterUserPlainKey_def Replace_plus AdminGetUserInfoByID_def
      GetItemConsistent_def ab_table_def empty_table_def persist_cases other_user_def
      other_table_def Let_def)

subsection \<open>Authentication and mutation on accounts that load\<close>

text \<open>
  \<open>GetUserInfo\<close> returns an account exactly when the table holds an item under the raw uid
  that loads as an account, the stored digest equals \<open>HashPassword\<close> of the supplied
  password, and the stored enabled flag is not \<open>0\<close>. Whenever the lookup returns and one
  of these fails, the answer is nil.
\<close>

lemma GetUserInfo_authenticates:
  "(GetUserInfo L um db u password = Return (Some user) \<longleftrightarrow>
      (\<exists>data. GetItemConsistent db u = Some data \<and>
              load_user L um u data = Return (Some user) \<and>
              data ''key'' = Some (HashPassword L um password) \<and>
              (\<exists>en. data ''enabled'' = Some en \<and> en \<noteq> ''0''))) \<and>
   (\<forall>r. AdminGetUserInfoByID L um db u = Return r \<longrightarrow>
        \<not> (\<exists>a. r = Some a \<and> key a = HashPassword L um password \<and> Enabled a \<noteq> ''0'') \<longrightarrow>
        GetUserInfo L um db u password = Return None)"
proof (intro conjI allI impI)
  show "GetUserInfo L um db u password = Return (Some user) \<longleftrightarrow>
      (\<exists>data. GetItemConsistent db u = Some data \<and>
              load_user L um u data = Return (Some user) \<and>
              data ''key'' = Some (HashPassword L um password) \<and>
              (\<exists>en. data ''enabled'' = Some en \<and> en \<noteq> ''0''))"
    unfolding GetUserInfo_cases AdminGetUserInfoByID_def
    by (auto split: option.splits dest: load_user_Some)
next
  fix r
  assume "AdminGetUserInfoByID L um db u = Return r"
    and "\<not> (\<exists>a. r = Some a \<and> key a = HashPassword L um password \<and> Enabled a \<noteq> ''0'')"
  then show "GetUserInfo L um db u password = Return None"
    by (auto simp: GetUserInfo_def split: option.splits)
qed

text \<open>
  \<open>DisableUser\<close>, \<open>EnableUser\<close> and \<open>UpdateUser\<close>, and \<open>AddActivityLog\<close> on a log map that
  is not nil, leave the user with the change applied whatever \<open>persist\<close> answers; when the
  write fails they return false and the table is as before.
\<close>

lemma no_rollback:
  "fst (snd (DisableUser L us db)) = us\<lparr>Enabled := ''0''\<rparr> \<and>
   fst (snd (EnableUser L us db)) = us\<lparr>Enabled := ''1''\<rparr> \<and>
   fst (snd (UpdateUser L us k db)) = us\<lparr>key := HashPassword L (md us) k\<rparr> \<and>
   (put_fails db \<longrightarrow>
      DisableUser L us db = (False, us\<lparr>Enabled := ''0''\<rparr>, db) \<and>
      EnableUser L us db = (False, us\<lparr>Enabled := ''1''\<rparr>, db) \<and>
      UpdateUser L us k db = (False, us\<lparr>key := HashPassword L (md us) k\<rparr>, db)) \<and>
   (\<forall>m. logs us = Some m \<longrightarrow> put_fails db \<longrightarrow>
      AddActivityLog L now us c des ip db =
        Return (False, us\<lparr>logs := Some (m(c \<mapsto> index_logs (Some m) c @
                     [Some \<lparr>Ts = now, Ip = ip, LogType = c, Desc = des\<rparr>]))\<rparr>, db))"
  by (simp add: DisableUser_result EnableUser_result UpdateUser_result AddActivityLog_result
      persist_cases entry_def)

section \<open>The claims\<close>

text \<open>
  C1. The claim fails on an item that is no account record. When the item under the uid
  carries an info text that is the JSON null, unmarshalling sets the user pointer to nil
  without an error and the lookup then dereferences it: \<open>GetUserInfo\<close> panics, where
  the claim has it return nil. (On lookups that return, \<open>GetUserInfo\<close> decides as the claim
  says: see \<open>GetUserInfo_authenticates\<close>.)
\<close>

theorem GetUserInfo_null_info_panics:
  assumes item: "GetItemConsistent db u = Some data"
    and attrs: "data ''key'' = Some k" "data ''enabled'' = Some en" "data ''info'' = Some info"
    and null: "Unmarshal_info L info = JsonNull"
  shows "AdminGetUserInfoByID L um db u = NilPanic \<and> GetUserInfo L um db u password = NilPanic"
  using assms
  by (simp add: GetUserInfo_def AdminGetUserInfoByID_def load_user_def)

theorem GetUserInfo_null_info_panics_witness:
  "Unmarshal_info demo_libs ''null'' = JsonNull \<and>
   GetUserInfo demo_libs demo_model poison_table ''eve@x.com'' ''pw1'' = NilPanic"
proof -
  let ?data = "[''key'' \<mapsto> ''k'', ''info'' \<mapsto> ''null'', ''logs'' \<mapsto> ''{}'', ''enabled'' \<mapsto> ''1'']"
  have n: "Unmarshal_info demo_libs ''null'' = JsonNull" by (simp add: demo_libs_def)
  have i: "GetItemConsistent poison_table ''eve@x.com'' = Some ?data"
    by (simp add: GetItemConsistent_def poison_table_def empty_table_def)
  from GetUserInfo_null_info_panics
    [OF i _ _ _ n, of "''k''" "''1''" demo_model "''pw1''"] n
  show ?thesis by simp
qed

text \<open>
  C2. Registration removes every \<open>+\<close> from the uid before anything else. The result of
  \<open>RegisterUserPlainKey\<close> is the result for the stripped uid, and \<open>RegisterUser\<close> is
  \<open>RegisterUserPlainKey\<close> at the stripped uid with the digest of the password. Both check
  uniqueness at the stripped uid: an account found there is the error, and when none is
  found and the write succeeds both create the account with the stripped uid and store
  its item under the stripped uid. An account that is returned carries the stripped uid
  and is stored under it.
\<close>

theorem RegisterUserPlainKey_strips_plus:
  "Replace u (CHR ''+'') [] = filter (\<lambda>c. c \<noteq> CHR ''+'') u \<and>
   RegisterUserPlainKey L um now db u k ip =
     RegisterUserPlainKey L um now db (filter (\<lambda>c. c \<noteq> CHR ''+'') u) k ip \<and>
   RegisterUser L um now db u password ip =
     RegisterUser L um now db (filter (\<lambda>c. c \<noteq> CHR ''+'') u) password ip \<and>
   RegisterUser L um now db u password ip =
     RegisterUserPlainKey L um now db (filter (\<lambda>c. c \<noteq> CHR ''+'') u)
       (HashPassword L um password) ip \<and>
   (\<forall>a. AdminGetUserInfoByID L um db (filter (\<lambda>c. c \<noteq> CHR ''+'') u) = Return (Some a) \<longrightarrow>
        RegisterUserPlainKey L um now db u k ip = (Return (Inl ExistingUserAccount), db) \<and>
        RegisterUser L um now db u password ip = (Return (Inl ExistingUserAccount), db)) \<and>
   (AdminGetUserInfoByID L um db (filter (\<lambda>c. c \<noteq> CHR ''+'') u) = Return None \<longrightarrow>
    \<not> put_fails db \<longrightarrow>
      (\<exists>us. RegisterUserPlainKey L um now db u k ip =
              (Return (Inr us),
               db\<lparr>rows := AList.update (filter (\<lambda>c. c \<noteq> CHR ''+'') u) (stored_item L us)
                             (rows db)\<rparr>) \<and>
            uid us = filter (\<lambda>c. c \<noteq> CHR ''+'') u \<and> key us = k) \<and>
      (\<exists>us. RegisterUser L um now db u password ip =
              (Return (Inr us),
               db\<lparr>rows := AList.update (filter (\<lambda>c. c \<noteq> CHR ''+'') u) (stored_item L us)
                             (rows db)\<rparr>) \<and>
            uid us = filter (\<lambda>c. c \<noteq> CHR ''+'') u \<and> key us = HashPassword L um password)) \<and>
   (\<forall>us db'. RegisterUserPlainKey L um now db u k ip = (Return (Inr us), db') \<longrightarrow>
        uid us = filter (\<lambda>c. c \<noteq> CHR ''+'') u \<and> CHR ''+'' \<notin> set (uid us) \<and>
        AdminGetUserInfoByID L um db (filter (\<lambda>c. c \<noteq> CHR ''+'') u) = Return None \<and>
        rows db' = AList.update (filter (\<lambda>c. c \<noteq> CHR ''+'') u) (stored_item L us) (rows db)) \<and>
   (\<forall>us db'. RegisterUser L um now db u password ip = (Return (Inr us), db') \<longrightarrow>
        uid us = filter (\<lambda>c. c \<noteq> CHR ''+'') u \<and> CHR ''+'' \<notin> set (uid us) \<and>
        key us = HashPassword L um password \<and>
        AdminGetUserInfoByID L um db (filter (\<lambda>c. c \<noteq> CHR ''+'') u) = Return None \<and>
        rows db' = AList.update (filter (\<lambda>c. c \<noteq> CHR ''+'') u) (stored_item L us) (rows db))"
proof -
  let ?s = "filter (\<lambda>c. c \<noteq> CHR ''+'') u"
  have eq: "RegisterUserPlainKey L um now db u k ip = RegisterUserPlainKey L um now db ?s k ip"
    for k
    by (simp add: RegisterUserPlainKey_def Replace_plus)
  have ex: "RegisterUserPlainKey L um now db u k ip = (Return (Inl ExistingUserAccount), db)"
    if "AdminGetUserInfoByID L um db ?s = Return (Some a)" for a k
    using that by (simp add: RegisterUserPlainKey_def Replace_plus)
  have mk: "\<exists>us. RegisterUserPlainKey L um now db u k ip =
              (Return (Inr us), db\<lparr>rows := AList.update ?s (stored_item L us) (rows db)\<rparr>) \<and>
            uid us = ?s \<and> key us = k"
    if "AdminGetUserInfoByID L um db ?s = Return None" "\<not> put_fails db" for k
    using Register_creates [OF that, of now k ip] by simp
  have res: "uid us = ?s \<and> CHR ''+'' \<notin> set (uid us) \<and> key us = k \<and>
        AdminGetUserInfoByID L um db ?s = Return None \<and>
        rows db' = AList.update ?s (stored_item L us) (rows db)"
    if "RegisterUserPlainKey L um now db u k ip = (Return (Inr us), db')" for us db' k
    using Register_result [OF that] by simp
  have ru: "RegisterUser L um now db u password ip =
      RegisterUserPlainKey L um now db u (HashPassword L um password) ip"
    by (simp add: RegisterUser_def)
  have ru': "RegisterUser L um now db ?s password ip =
      RegisterUserPlainKey L um now db ?s (HashPassword L um password) ip"
    by (simp add: RegisterUser_def)
  show ?thesis
  proof (intro conjI allI impI)
    show "Replace u (CHR ''+'') [] = ?s" by (rule Replace_plus)
    show "RegisterUserPlainKey L um now db u k ip = RegisterUserPlainKey L um now db ?s k ip"
      by (rule eq)
    show "RegisterUser L um now db u password ip = RegisterUser L um now db ?s password ip"
      unfolding ru ru' by (rule eq)
    show "RegisterUser L um now db u password ip =
        RegisterUserPlainKey L um now db ?s (HashPassword L um password) ip"
      unfolding ru by (rule eq)
  next
    fix a
    assume a: "AdminGetUserInfoByID L um db ?s = Return (Some a)"
    show "RegisterUserPlainKey L um now db u k ip = (Return (Inl ExistingUserAccount), db)"
      by (rule ex [OF a])
    show "RegisterUser L um now db u password ip = (Return (Inl ExistingUserAccount), db)"
      unfolding ru by (rule ex [OF a])
  next
    assume n: "AdminGetUserInfoByID L um db ?s = Return None" and w: "\<not> put_fails db"
    show "\<exists>us. RegisterUserPlainKey L um now db u k ip =
              (Return (Inr us), db\<lparr>rows := AList.update ?s (stored_item L us) (rows db)\<rparr>) \<and>
            uid us = ?s \<and> key us = k"
      by (rule mk [OF n w])
    show "\<exists>us. RegisterUser L um now db u password ip =
              (Return (Inr us), db\<lparr>rows := AList.update ?s (stored_item L us) (rows db)\<rparr>) \<and>
            uid us = ?s \<and> key us = HashPassword L um password"
      unfolding ru by (rule mk [OF n w])
  next
    fix us db'
    assume r: "RegisterUserPlainKey L um now db u k ip = (Return (Inr us), db')"
    from res [OF r] show "uid us = ?s" by blast
    from res [OF r] show "CHR ''+'' \<notin> set (uid us)" by blast
    from res [OF r] show "AdminGetUserInfoByID L um db ?s = Return None" by blast
    from res [OF r] show "rows db' = AList.update ?s (stored_item L us) (rows db)" by blast
  next
    fix us db'
    assume "RegisterUser L um now db u password ip = (Return (Inr us), db')"
    then have r: "RegisterUserPlainKey L um now db u (HashPassword L um password) ip =
        (Return (Inr us), db')"
      unfolding ru .
    from res [OF r] show "uid us = ?s" by blast
    from res [OF r] show "CHR ''+'' \<notin> set (uid us)" by blast
    from res [OF r] show "key us = HashPassword L um password" by blast
    from res [OF r] show "AdminGetUserInfoByID L um db ?s = Return None" by blast
    from res [OF r] show "rows db' = AList.update ?s (stored_item L us) (rows db)" by blast
  qed
qed

theorem RegisterUserPlainKey_strips_plus_witness:
  "RegisterUser demo_libs demo_model demo_now empty_table ''a+b@x.com'' ''pw1'' ''10.0.0.1'' =
     (Return (Inr ab_user), ab_table) \<and>
   uid ab_user = ''ab@x.com'' \<and>
   key ab_user = HashPassword demo_libs demo_model ''pw1'' \<and>
   rows ab_table = [(''ab@x.com'', stored_item demo_libs ab_user)] \<and>
   RegisterUser demo_libs demo_model demo_now ab_table ''+ab@x.com'' ''pw2'' ''10.0.0.2'' =
     (Return (Inl ExistingUserAccount), ab_table) \<and>
   RegisterUserPlainKey demo_libs demo_model demo_now ab_table ''+ab@x.com'' ''k'' ''10.0.0.2'' =
     (Return (Inl ExistingUserAccount), ab_table)"
proof -
  have found: "AdminGetUserInfoByID demo_libs demo_model ab_table
      (filter (\<lambda>c. c \<noteq> CHR ''+'') ''+ab@x.com'') = Return (Some ab_user)"
    using demo_lookup by simp
  from RegisterUserPlainKey_strips_plus
    [of "''a+b@x.com''" demo_libs demo_model demo_now empty_table "''k''" "''10.0.0.1''"
      "''pw1''"] demo_register
  have "uid ab_user = filter (\<lambda>c. c \<noteq> CHR ''+'') ''a+b@x.com'' \<and>
      key ab_user = HashPassword demo_libs demo_model ''pw1'' \<and>
      rows ab_table = AList.update (filter (\<lambda>c. c \<noteq> CHR ''+'') ''a+b@x.com'')
        (stored_item demo_libs ab_user) (rows empty_table)"
    by blast
  then have "uid ab_user = ''ab@x.com'' \<and>
      key ab_user = HashPassword demo_libs demo_model ''pw1'' \<and>
      rows ab_table = [(''ab@x.com'', stored_item demo_libs ab_user)]"
    by (simp add: empty_table_def)
  moreover
  from RegisterUserPlainKey_strips_plus
    [of "''+ab@x.com''" demo_libs demo_model demo_now ab_table "''k''" "''10.0.0.2''"
      "''pw2''"] found
  have "RegisterUserPlainKey demo_libs demo_model demo_now ab_table ''+ab@x.com'' ''k''
      ''10.0.0.2'' = (Return (Inl ExistingUserAccount), ab_table) \<and>
    RegisterUser demo_libs demo_model demo_now ab_table ''+ab@x.com'' ''pw2'' ''10.0.0.2'' =
      (Return (Inl ExistingUserAccount), ab_table)"
    by blast
  ultimately show ?thesis using demo_register by simp
qed

text \<open>
  C3, as amended. After a registration that created an account, take a second
  registration whose uid has the same stripped form, at any later state of the environment
  with the same items. When its consistent read of the table answers, it returns the error
  \<open>ExistingUserAccount\<close> and no account, and leaves the table as it was, so the item of
  the first account is untouched. When that read returns an error, the lookup reports no
  account: the second call stores a new account over the item of the first, or returns
  the store error and leaves the table when the write fails as well.
\<close>

theorem RegisterUserPlainKey_twice:
  assumes first: "RegisterUserPlainKey L um now db u k ip = (Return (Inr us), db1)"
    and same: "filter (\<lambda>c. c \<noteq> CHR ''+'') u2 = filter (\<lambda>c. c \<noteq> CHR ''+'') u"
    and later: "rows db2 = rows db1"
  shows "(\<not> get_fails db2 \<longrightarrow> json_decodable L us \<longrightarrow>
            RegisterUserPlainKey L um now2 db2 u2 k2 ip2 =
              (Return (Inl ExistingUserAccount), db2) \<and>
            RegisterUser L um now2 db2 u2 password2 ip2 =
              (Return (Inl ExistingUserAccount), db2) \<and>
            map_of (rows db2) (uid us) = Some (stored_item L us)) \<and>
         (get_fails db2 \<longrightarrow> \<not> put_fails db2 \<longrightarrow>
            RegisterUserPlainKey L um now2 db2 u2 k2 ip2 =
              (Return (Inr \<lparr>uid = uid us, key = k2, Enabled = ''1'', logs = Some Map.empty,
                             RegTs = now2, RegIp = ip2, md = um\<rparr>),
               db2\<lparr>rows := AList.update (uid us)
                   (stored_item L \<lparr>uid = uid us, key = k2, Enabled = ''1'',
                                    logs = Some Map.empty, RegTs = now2, RegIp = ip2, md = um\<rparr>)
                   (rows db2)\<rparr>)) \<and>
         (get_fails db2 \<longrightarrow> put_fails db2 \<longrightarrow>
            RegisterUserPlainKey L um now2 db2 u2 k2 ip2 =
              (Return (Inl ErrorStoringUserData), db2))"
proof (intro conjI impI)
  from Register_result [OF first]
  have u: "uid us = filter (\<lambda>c. c \<noteq> CHR ''+'') u"
    and d: "db1 = db\<lparr>rows := AList.update (uid us) (stored_item L us) (rows db)\<rparr>"
    by simp_all
  from d later have m: "map_of (rows db2) (uid us) = Some (stored_item L us)"
    by (simp add: update_conv')
  then show "map_of (rows db2) (uid us) = Some (stored_item L us)" .
  {
    assume read: "\<not> get_fails db2" and dec: "json_decodable L us"
    from AdminGet_stored [OF m read dec]
    obtain a where a: "AdminGetUserInfoByID L um db2 (uid us) = Return (Some a)" by blast
    have "RegisterUserPlainKey L um now2 db2 u2 k2 ip2 =
        (Return (Inl ExistingUserAccount), db2)" for k2
      using a u same by (simp add: RegisterUserPlainKey_def Replace_plus)
  }
  note ex = this
  show "RegisterUserPlainKey L um now2 db2 u2 k2 ip2 = (Return (Inl ExistingUserAccount), db2)"
    if "\<not> get_fails db2" "json_decodable L us"
    using ex [OF that] .
  show "RegisterUser L um now2 db2 u2 password2 ip2 = (Return (Inl ExistingUserAccount), db2)"
    if "\<not> get_fails db2" "json_decodable L us"
    unfolding RegisterUser_def using ex [OF that] .
  have none: "AdminGetUserInfoByID L um db2 (filter (\<lambda>c. c \<noteq> CHR ''+'') u2) = Return None"
    if "get_fails db2"
    using that by (rule AdminGet_read_error)
  show "RegisterUserPlainKey L um now2 db2 u2 k2 ip2 =
      (Return (Inr \<lparr>uid = uid us, key = k2, Enabled = ''1'', logs = Some Map.empty,
                     RegTs = now2, RegIp = ip2, md = um\<rparr>),
       db2\<lparr>rows := AList.update (uid us)
           (stored_item L \<lparr>uid = uid us, key = k2, Enabled = ''1'',
                            logs = Some Map.empty, RegTs = now2, RegIp = ip2, md = um\<rparr>)
           (rows db2)\<rparr>)"
    if "get_fails db2" "\<not> put_fails db2"
    using Register_creates [OF none [OF that(1)] that(2), of now2 k2 ip2]
    by (simp add: same u)
  show "RegisterUserPlainKey L um now2 db2 u2 k2 ip2 = (Return (Inl ErrorStoringUserData), db2)"
    if "get_fails db2" "put_fails db2"
    using Register_store_error [OF none [OF that(1)] that(2)] .
qed

theorem RegisterUserPlainKey_twice_witness:
  "RegisterUserPlainKey demo_libs demo_model demo_now empty_table ''a+b@x.com''
       (HashPassword demo_libs demo_model ''pw1'') ''10.0.0.1'' = (Return (Inr ab_user), ab_table) \<and>
   RegisterUserPlainKey demo_libs demo_model 7 ab_table ''ab+@x.com'' ''other'' ''10.0.0.2'' =
     (Return (Inl ExistingUserAccount), ab_table) \<and>
   RegisterUserPlainKey demo_libs demo_model 7 (ab_table\<lparr>get_fails := True, put_fails := True\<rparr>)
       ''ab+@x.com'' ''other'' ''10.0.0.2'' =
     (Return (Inl ErrorStoringUserData), ab_table\<lparr>get_fails := True, put_fails := True\<rparr>)"
proof -
  have same: "filter (\<lambda>c. c \<noteq> CHR ''+'') ''ab+@x.com'' =
      filter (\<lambda>c. c \<noteq> CHR ''+'') ''a+b@x.com''"
    by simp
  have read: "\<not> get_fails ab_table" by (simp add: ab_table_def empty_table_def)
  have r2: "rows (ab_table\<lparr>get_fails := True, put_fails := True\<rparr>) = rows ab_table"
    and g2: "get_fails (ab_table\<lparr>get_fails := True, put_fails := True\<rparr>)"
    and p2: "put_fails (ab_table\<lparr>get_fails := True, put_fails := True\<rparr>)"
    by simp_all
  from RegisterUserPlainKey_twice
    [OF demo_first same refl, of 7 "''other''" "''10.0.0.2''"] read demo_decodable
  have 1: "RegisterUserPlainKey demo_libs demo_model 7 ab_table ''ab+@x.com'' ''other''
      ''10.0.0.2'' = (Return (Inl ExistingUserAccount), ab_table)"
    by blast
  from RegisterUserPlainKey_twice
    [OF demo_first same r2, of 7 "''other''" "''10.0.0.2''"] g2 p2
  have 2: "RegisterUserPlainKey demo_libs demo_model 7
      (ab_table\<lparr>get_fails := True, put_fails := True\<rparr>) ''ab+@x.com'' ''other'' ''10.0.0.2'' =
     (Return (Inl ErrorStoringUserData), ab_table\<lparr>get_fails := True, put_fails := True\<rparr>)"
    by blast
  from demo_first 1 2 show ?thesis by blast
qed

text \<open>
  C3, as stated, fails: the account for \<open>a+b@x.com\<close> is registered; the same uid is
  registered again while the read of the table returns an error; the second call returns
  an account and no error, and the item of the first account now carries the digest and
  the address of the second.
\<close>

theorem second_registration_overwrites:
  "RegisterUserPlainKey demo_libs demo_model demo_now empty_table ''a+b@x.com''
       (HashPassword demo_libs demo_model ''pw1'') ''10.0.0.1'' = (Return (Inr ab_user), ab_table) \<and>
   RegisterUserPlainKey demo_libs demo_model demo_now (ab_table\<lparr>get_fails := True\<rparr>)
       ''a+b@x.com'' ''other'' ''10.0.0.2'' = (Return (Inr other_user), other_table) \<and>
   map_of (rows ab_table) ''ab@x.com'' = Some (stored_item demo_libs ab_user) \<and>
   map_of (rows other_table) ''ab@x.com'' = Some (stored_item demo_libs other_user) \<and>
   stored_item demo_libs ab_user ''key'' = Some (HashPassword demo_libs demo_model ''pw1'') \<and>
   stored_item demo_libs other_user ''key'' = Some ''other'' \<and>
   HashPassword demo_libs demo_model ''pw1'' \<noteq> ''other''"
proof -
  have "map_of (rows ab_table) ''ab@x.com'' = Some (stored_item demo_libs ab_user)"
    by (simp add: ab_table_def empty_table_def)
  moreover have "map_of (rows other_table) ''ab@x.com'' = Some (stored_item demo_libs other_user)"
    by (simp add: other_table_def empty_table_def)
  moreover have "stored_item demo_libs ab_user ''key'' =
      Some (HashPassword demo_libs demo_model ''pw1'')"
    by (simp add: stored_item_def cPrimKey_def ab_user_def)
  moreover have "stored_item demo_libs other_user ''key'' = Some ''other''"
    by (simp add: stored_item_def cPrimKey_def other_user_def)
  moreover have "HashPassword demo_libs demo_model ''pw1'' \<noteq> ''other''"
    by (simp add: HashPassword_def demo_libs_def demo_model_def)
  ultimately show ?thesis using demo_first demo_second_overwrites by simp
qed

text \<open>
  C4, as amended. Persist and reload, for text that is valid UTF-8. When \<open>persist\<close> has
  succeeded and the read answers, \<open>AdminGetUserInfoByID\<close> at the user's uid returns an
  account with the same enabled flag and registration time, and the same origin address
  when that address is valid UTF-8 (and the same uid and digest, and the same logs when
  their text is valid UTF-8). When entries are appended to a category by \<open>AddActivityLog\<close>,
  the last call has persisted, and the category name, the descriptions and the addresses
  are valid UTF-8 like the text the account held before, the reloaded account holds in
  that category the lines it had before followed by the new lines in call order, each with
  the time, address, type and description it was given: exactly as many as were appended
  when the category was empty before. The other categories, the flag, the time and the
  origin address are unchanged. The JSON library is taken to do what \<open>encoding/json\<close> does.
\<close>

theorem persist_reload_roundtrip:
  "(\<forall>db'. persist L us db = (True, db') \<longrightarrow> \<not> get_fails db' \<longrightarrow> encoding_json L us \<longrightarrow>
      valid_utf8 (RegIp us) \<longrightarrow>
      (\<exists>a. AdminGetUserInfoByID L um db' (uid us) = Return (Some a) \<and>
           Enabled a = Enabled us \<and> RegTs a = RegTs us \<and> RegIp a = RegIp us \<and>
           uid a = uid us \<and> key a = key us \<and>
           (valid_logs (logs us) \<longrightarrow> logs a = logs us))) \<and>
   (\<forall>p us' db'. AddActivityLogs L c es (p, us, db) = Return (True, us', db') \<longrightarrow> es \<noteq> [] \<longrightarrow>
      \<not> get_fails db' \<longrightarrow> encoding_json L us' \<longrightarrow>
      valid_utf8 (RegIp us) \<longrightarrow> valid_logs (logs us) \<longrightarrow> valid_utf8 c \<longrightarrow>
      (\<forall>e \<in> set es. valid_line (entry c e)) \<longrightarrow>
      (\<exists>a m. AdminGetUserInfoByID L um db' (uid us) = Return (Some a) \<and>
           logs us = Some m \<and>
           logs a = Some (m(c \<mapsto> index_logs (logs us) c @ map (entry c) es)) \<and>
           index_logs (logs a) c = index_logs (logs us) c @ map (entry c) es \<and>
           (index_logs (logs us) c = [] \<longrightarrow> length (index_logs (logs a) c) = length es) \<and>
           (\<forall>c'. c' \<noteq> c \<longrightarrow> index_logs (logs a) c' = index_logs (logs us) c') \<and>
           Enabled a = Enabled us \<and> RegTs a = RegTs us \<and> RegIp a = RegIp us))"
proof (intro conjI allI impI)
  fix db'
  assume p: "persist L us db = (True, db')" and g: "\<not> get_fails db'"
    and j: "encoding_json L us" and v: "valid_utf8 (RegIp us)"
  from persist_True [OF p] have s: "map_of (rows db') (uid us) = Some (stored_item L us)"
    by simp
  from AdminGet_coerced [OF s g j, of um]
  obtain lm where lm: "valid_keys (logs us) \<longrightarrow> lm = coerce_logs (logs us)"
    and a: "AdminGetUserInfoByID L um db' (uid us) =
        Return (Some (us\<lparr>RegIp := json_coerce (RegIp us), logs := lm, md := um\<rparr>))"
    by blast
  have "valid_logs (logs us) \<longrightarrow> lm = logs us"
    using lm by (auto simp: valid_logs_keys valid_coerce_logs)
  with a v show "\<exists>a. AdminGetUserInfoByID L um db' (uid us) = Return (Some a) \<and>
           Enabled a = Enabled us \<and> RegTs a = RegTs us \<and> RegIp a = RegIp us \<and>
           uid a = uid us \<and> key a = key us \<and>
           (valid_logs (logs us) \<longrightarrow> logs a = logs us)"
    by (simp add: valid_coerce)
next
  fix p us' db'
  assume run: "AddActivityLogs L c es (p, us, db) = Return (True, us', db')" and ne: "es \<noteq> []"
    and g: "\<not> get_fails db'" and j: "encoding_json L us'"
    and vi: "valid_utf8 (RegIp us)" and vl: "valid_logs (logs us)" and vc: "valid_utf8 c"
    and ve: "\<forall>e \<in> set es. valid_line (entry c e)"
  from AddActivityLogs_memory [OF run ne]
  obtain m where m: "logs us = Some m"
    and mem: "us' = us\<lparr>logs := Some (m(c \<mapsto> index_logs (Some m) c @ map (entry c) es))\<rparr>"
    by blast
  let ?m' = "m(c \<mapsto> index_logs (Some m) c @ map (entry c) es)"
  have l': "logs us' = Some ?m'" and i': "RegIp us' = RegIp us" and u': "uid us' = uid us"
    and e': "Enabled us' = Enabled us" and t': "RegTs us' = RegTs us"
    unfolding mem by simp_all
  from ve have "\<forall>l \<in> set (map (entry c) es). valid_line l" by simp
  from valid_logs_append [OF vl [unfolded m] vc this]
  have "valid_logs (logs us')" unfolding l' .
  with j vi have rt: "json_roundtrip L us'"
    by (simp add: encoding_json_roundtrip i')
  from AddActivityLogs_persisted [OF run ne]
  have st: "map_of (rows db') (uid us') = Some (stored_item L us')" by simp
  have "AdminGetUserInfoByID L um db' (uid us') = Return (Some (us'\<lparr>md := um\<rparr>))"
    by (rule AdminGet_roundtrip [OF st g rt])
  then have 1: "AdminGetUserInfoByID L um db' (uid us) = Return (Some (us'\<lparr>md := um\<rparr>))"
    unfolding u' .
  have 2: "logs (us'\<lparr>md := um\<rparr>) = Some (m(c \<mapsto> index_logs (logs us) c @ map (entry c) es))"
    using l' by (simp add: m)
  have 3: "index_logs (logs (us'\<lparr>md := um\<rparr>)) c = index_logs (logs us) c @ map (entry c) es"
    unfolding 2 by (simp add: index_logs_upd)
  have 4: "\<forall>c'. c' \<noteq> c \<longrightarrow> index_logs (logs (us'\<lparr>md := um\<rparr>)) c' = index_logs (logs us) c'"
    unfolding 2 by (simp add: index_logs_other m)
  have 5: "Enabled (us'\<lparr>md := um\<rparr>) = Enabled us \<and> RegTs (us'\<lparr>md := um\<rparr>) = RegTs us \<and>
      RegIp (us'\<lparr>md := um\<rparr>) = RegIp us"
    using e' t' i' by simp
  from 3 have 6: "index_logs (logs us) c = [] \<longrightarrow>
      length (index_logs (logs (us'\<lparr>md := um\<rparr>)) c) = length es"
    by simp
  from 1 m 2 3 4 5 6
  show "\<exists>a m. AdminGetUserInfoByID L um db' (uid us) = Return (Some a) \<and>
           logs us = Some m \<and>
           logs a = Some (m(c \<mapsto> index_logs (logs us) c @ map (entry c) es)) \<and>
           index_logs (logs a) c = index_logs (logs us) c @ map (entry c) es \<and>
           (index_logs (logs us) c = [] \<longrightarrow> length (index_logs (logs a) c) = length es) \<and>
           (\<forall>c'. c' \<noteq> c \<longrightarrow> index_logs (logs a) c' = index_logs (logs us) c') \<and>
           Enabled a = Enabled us \<and> RegTs a = RegTs us \<and> RegIp a = RegIp us"
    by blast
qed

theorem persist_reload_roundtrip_witness:
  "persist demo_libs ab_user ab_table = (True, ab_table) \<and>
   AddActivityLogs demo_libs ''account'' demo_entries (False, ab_user, ab_table) =
     Return (True, ab_user2, ab_table2) \<and>
   (\<exists>a. AdminGetUserInfoByID demo_libs demo_model ab_table ''ab@x.com'' = Return (Some a) \<and>
        Enabled a = ''1'' \<and> RegTs a = demo_now \<and> RegIp a = ''10.0.0.1'') \<and>
   (\<exists>a. AdminGetUserInfoByID demo_libs demo_model ab_table2 ''ab@x.com'' = Return (Some a) \<and>
        index_logs (logs a) ''account'' =
          [Some \<lparr>Ts = demo_now, Ip = ''10.0.0.1'', LogType = ''account'', Desc = ''a''\<rparr>,
           Some \<lparr>Ts = demo_now, Ip = ''10.0.0.1'', LogType = ''account'', Desc = ''b''\<rparr>])"
proof -
  have p: "persist demo_libs ab_user ab_table = (True, ab_table)"
    by (simp add: persist_cases ab_table_def empty_table_def ab_user_def)
  have g: "\<not> get_fails ab_table" by (simp add: ab_table_def empty_table_def)
  have g2: "\<not> get_fails ab_table2" by (simp add: ab_table2_def empty_table_def)
  have ne: "demo_entries \<noteq> []" by (simp add: demo_entries_def)
  have vc: "valid_utf8 ''account''" by (rule ascii_valid) simp
  have va: "valid_utf8 ''a''" and vb: "valid_utf8 ''b''" and vi: "valid_utf8 ''10.0.0.1''"
    by (rule ascii_valid, simp)+
  have ve: "\<forall>e \<in> set demo_entries. valid_line (entry ''account'' e)"
    by (simp add: demo_entries_def entry_def valid_line_def vc va vb vi)
  note t = persist_reload_roundtrip
    [of demo_libs ab_user ab_table demo_model "''account''" demo_entries]
  from t p g demo_encoding demo_valid
  have "\<exists>a. AdminGetUserInfoByID demo_libs demo_model ab_table (uid ab_user) = Return (Some a) \<and>
      Enabled a = Enabled ab_user \<and> RegTs a = RegTs ab_user \<and> RegIp a = RegIp ab_user"
    by blast
  then have 1: "\<exists>a. AdminGetUserInfoByID demo_libs demo_model ab_table ''ab@x.com'' =
        Return (Some a) \<and>
      Enabled a = ''1'' \<and> RegTs a = demo_now \<and> RegIp a = ''10.0.0.1''"
    by (simp add: ab_user_def)
  from t demo_append ne g2 demo_encoding2 demo_valid vc ve
  have "\<exists>a. AdminGetUserInfoByID demo_libs demo_model ab_table2 (uid ab_user) = Return (Some a) \<and>
      index_logs (logs a) ''account'' =
        index_logs (logs ab_user) ''account'' @ map (entry ''account'') demo_entries"
    by blast
  then have 2: "\<exists>a. AdminGetUserInfoByID demo_libs demo_model ab_table2 ''ab@x.com'' =
        Return (Some a) \<and>
      index_logs (logs a) ''account'' =
          [Some \<lparr>Ts = demo_now, Ip = ''10.0.0.1'', LogType = ''account'', Desc = ''a''\<rparr>,
           Some \<lparr>Ts = demo_now, Ip = ''10.0.0.1'', LogType = ''account'', Desc = ''b''\<rparr>]"
    by (simp add: ab_user_def index_logs_def demo_entries_def entry_def)
  from p demo_append 1 2 show ?thesis by blast
qed

text \<open>
  C4, as stated, fails on text that is not valid UTF-8. The account has the origin
  address \<open>caf\<close> followed by the byte E9; a line with that same text as description is
  appended to category \<open>account\<close> and persisted. Reloaded, the address and the description
  are \<open>caf\<close> followed by the bytes EF BF BD: the encoding of the replacement rune U+FFFD.
\<close>

theorem persist_reload_coerces_text:
  "AddActivityLog demo_libs demo_now
       (ab_user\<lparr>RegIp := ''caf'' @ [CHR 0xE9]\<rparr>) ''account'' (''caf'' @ [CHR 0xE9]) ''10.0.0.1''
       empty_table = Return (True, latin_user, latin_table) \<and>
   AdminGetUserInfoByID demo_libs demo_model latin_table ''ab@x.com'' =
     Return (Some latin_reloaded) \<and>
   RegIp latin_user = ''caf'' @ [CHR 0xE9] \<and>
   RegIp latin_reloaded = ''caf'' @ [CHR 0xEF, CHR 0xBF, CHR 0xBD] \<and>
   index_logs (logs latin_user) ''account'' =
     [Some \<lparr>Ts = demo_now, Ip = ''10.0.0.1'', LogType = ''account'',
            Desc = ''caf'' @ [CHR 0xE9]\<rparr>] \<and>
   index_logs (logs latin_reloaded) ''account'' =
     [Some \<lparr>Ts = demo_now, Ip = ''10.0.0.1'', LogType = ''account'',
            Desc = ''caf'' @ [CHR 0xEF, CHR 0xBF, CHR 0xBD]\<rparr>] \<and>
   encoding_json demo_libs latin_user"
proof -
  have 1: "AddActivityLog demo_libs demo_now
       (ab_user\<lparr>RegIp := ''caf'' @ [CHR 0xE9]\<rparr>) ''account'' (''caf'' @ [CHR 0xE9]) ''10.0.0.1''
       empty_table = Return (True, latin_user, latin_table)"
    by (subst AddActivityLog_result [of _ Map.empty])
       (simp_all add: ab_user_def index_logs_def persist_cases latin_table_def empty_table_def
          latin_user_def entry_def demo_line_def cafe_def)
  have 2: "RegIp latin_user = ''caf'' @ [CHR 0xE9]"
    by (simp add: latin_user_def cafe_def)
  have 3: "RegIp latin_reloaded = ''caf'' @ [CHR 0xEF, CHR 0xBF, CHR 0xBD]"
    by (simp add: latin_reloaded_def cafe_coerced_def)
  have 4: "index_logs (logs latin_user) ''account'' =
     [Some \<lparr>Ts = demo_now, Ip = ''10.0.0.1'', LogType = ''account'',
            Desc = ''caf'' @ [CHR 0xE9]\<rparr>]"
    by (simp add: latin_user_def index_logs_def demo_line_def cafe_def)
  have 5: "index_logs (logs latin_reloaded) ''account'' =
     [Some \<lparr>Ts = demo_now, Ip = ''10.0.0.1'', LogType = ''account'',
            Desc = ''caf'' @ [CHR 0xEF, CHR 0xBF, CHR 0xBD]\<rparr>]"
    by (simp add: latin_reloaded_def index_logs_def demo_line_def cafe_coerced_def)
  from 1 demo_latin_lookup 2 3 4 5 demo_latin_encoding show ?thesis by blast
qed

text \<open>
  C5. For an account whose digest is \<open>HashPassword\<close> of the password: after \<open>DisableUser\<close>
  has persisted, \<open>GetUserInfo\<close> with that password returns nil; after \<open>EnableUser\<close> has then
  persisted, \<open>GetUserInfo\<close> with that password returns the account again. The reads answer
  and the JSON library reads the item it has written.
\<close>

theorem DisableUser_EnableUser_authenticate:
  assumes pw: "key us = HashPassword L um password"
    and dis: "DisableUser L us db = (True, us1, db1)"
    and en: "EnableUser L us1 db1 = (True, us2, db2)"
    and read: "\<not> get_fails db"
    and dec: "json_decodable L us"
  shows "GetUserInfo L um db1 (uid us) password = Return None \<and>
         (\<exists>a. GetUserInfo L um db2 (uid us) password = Return (Some a) \<and>
              uid a = uid us \<and> key a = key us \<and> Enabled a = ''1'')"
proof
  from DisableUser_True [OF dis] have u1: "us1 = us\<lparr>Enabled := ''0''\<rparr>"
    and p1: "persist L (us\<lparr>Enabled := ''0''\<rparr>) db = (True, db1)"
    by blast+
  from persist_True [OF p1] read
  have s1: "map_of (rows db1) (uid us1) = Some (stored_item L us1)" and r1: "\<not> get_fails db1"
    by (simp_all add: u1)
  have d1: "json_decodable L us1"
    using dec by (simp add: u1 json_decodable_def)
  from AdminGet_stored [OF s1 r1 d1, of um]
  obtain a where a: "AdminGetUserInfoByID L um db1 (uid us) = Return (Some a)"
    and "Enabled a = ''0''"
    by (auto simp: u1)
  then show "GetUserInfo L um db1 (uid us) password = Return None"
    by (simp add: GetUserInfo_def)
  from EnableUser_True [OF en] have u2: "us2 = us\<lparr>Enabled := ''1''\<rparr>"
    and p2: "persist L (us1\<lparr>Enabled := ''1''\<rparr>) db1 = (True, db2)"
    by (simp_all add: u1)
  from persist_True [OF p2] r1
  have s2: "map_of (rows db2) (uid us2) = Some (stored_item L us2)" and r2: "\<not> get_fails db2"
    by (simp_all add: u1 u2)
  have d2: "json_decodable L us2"
    using dec by (simp add: u2 json_decodable_def)
  from AdminGet_stored [OF s2 r2 d2, of um]
  obtain b where b: "AdminGetUserInfoByID L um db2 (uid us) = Return (Some b)"
    and "uid b = uid us" "key b = key us" "Enabled b = ''1''"
    by (auto simp: u2)
  then show "\<exists>a. GetUserInfo L um db2 (uid us) password = Return (Some a) \<and>
              uid a = uid us \<and> key a = key us \<and> Enabled a = ''1''"
    using pw by (simp add: GetUserInfo_def)
qed

theorem DisableUser_EnableUser_authenticate_witness:
  "DisableUser demo_libs ab_user ab_table = (True, ab_user\<lparr>Enabled := ''0''\<rparr>, ab_table_off) \<and>
   GetUserInfo demo_libs demo_model ab_table_off ''ab@x.com'' ''pw1'' = Return None \<and>
   EnableUser demo_libs (ab_user\<lparr>Enabled := ''0''\<rparr>) ab_table_off = (True, ab_user, ab_table) \<and>
   (\<exists>a. GetUserInfo demo_libs demo_model ab_table ''ab@x.com'' ''pw1'' = Return (Some a) \<and>
        Enabled a = ''1'')"
proof -
  have pw: "key ab_user = HashPassword demo_libs demo_model ''pw1''"
    by (simp add: ab_user_def)
  have read: "\<not> get_fails ab_table" by (simp add: ab_table_def empty_table_def)
  have u: "uid ab_user = ''ab@x.com''" by (simp add: ab_user_def)
  from DisableUser_EnableUser_authenticate
    [OF pw demo_disable demo_enable read demo_decodable] demo_disable demo_enable
  show ?thesis unfolding u by blast
qed

text \<open>
  C6. Listing is not all-or-nothing on every table: when the first item scanned carries an
  info text that is the JSON null, unmarshalling sets the user pointer to nil without an
  error and \<open>GetRegisteredUsers\<close> then dereferences it. The call panics: it returns neither
  nil nor a mapping. (On tables where no item panics the loop does as claimed: see
  \<open>scan_loop_aborts\<close> and \<open>scan_loop_complete\<close>.)
\<close>

theorem GetRegisteredUsers_null_info_panics:
  assumes rows: "rows db = (u, it) # others"
    and attrs: "it ''key'' = Some k" "it ''enabled'' = Some en" "it ''info'' = Some info"
    and null: "Unmarshal_info L info = JsonNull"
    and scan: "\<not> scan_fails db"
  shows "GetRegisteredUsers L um db = NilPanic"
  using assms
  by (simp add: GetRegisteredUsers_def Scan_def cPrimKey_def load_user_def)

theorem GetRegisteredUsers_null_info_panics_witness:
  "Unmarshal_info demo_libs ''null'' = JsonNull \<and>
   GetRegisteredUsers demo_libs demo_model poison_table = NilPanic"
proof -
  have n: "Unmarshal_info demo_libs ''null'' = JsonNull" by (simp add: demo_libs_def)
  have r: "rows poison_table = [(''eve@x.com'',
        [''key'' \<mapsto> ''k'', ''info'' \<mapsto> ''null'', ''logs'' \<mapsto> ''{}'', ''enabled'' \<mapsto> ''1''])]"
    by (simp add: poison_table_def)
  have s: "\<not> scan_fails poison_table" by (simp add: poison_table_def empty_table_def)
  from GetRegisteredUsers_null_info_panics [OF r _ _ _ n s, of "''k''" "''1''" demo_model] n
  show ?thesis by simp
qed



text \<open>
  C8. After \<open>RegisterUser\<close> has created the account for uid \<open>a+b@x.com\<close> with password
  \<open>pw1\<close>, in a table that held no item under that raw uid, \<open>AdminGetUserInfoByID\<close> returns
  nil for \<open>a+b@x.com\<close> and the account for \<open>ab@x.com\<close>: registration stores under the
  stripped uid, lookup reads at the uid as given.
\<close>

theorem register_lookup_asymmetry:
  assumes reg: "RegisterUser L um now db ''a+b@x.com'' ''pw1'' ip = (Return (Inr us), db')"
    and fresh: "map_of (rows db) ''a+b@x.com'' = None"
    and read: "\<not> get_fails db"
    and dec: "json_decodable L us"
  shows "uid us = ''ab@x.com'' \<and>
         AdminGetUserInfoByID L um db' ''a+b@x.com'' = Return None \<and>
         (\<exists>a. AdminGetUserInfoByID L um db' ''ab@x.com'' = Return (Some a) \<and>
              uid a = ''ab@x.com'' \<and> key a = HashPassword L um ''pw1'' \<and> Enabled a = ''1'')"
proof -
  from reg
  have r: "RegisterUserPlainKey L um now db ''a+b@x.com'' (HashPassword L um ''pw1'') ip =
      (Return (Inr us), db')"
    by (simp add: RegisterUser_def)
  from Register_result [OF r]
  have u: "uid us = ''ab@x.com''" and k: "key us = HashPassword L um ''pw1''"
    and e: "Enabled us = ''1''"
    and d: "db' = db\<lparr>rows := AList.update (uid us) (stored_item L us) (rows db)\<rparr>"
    by simp_all
  from d fresh read have "AdminGetUserInfoByID L um db' ''a+b@x.com'' = Return None"
    by (simp add: AdminGetUserInfoByID_def GetItemConsistent_def update_conv' u)
  moreover
  from d read have "map_of (rows db') (uid us) = Some (stored_item L us)" "\<not> get_fails db'"
    by (simp_all add: update_conv')
  from AdminGet_stored [OF this dec, of um]
  have "\<exists>a. AdminGetUserInfoByID L um db' ''ab@x.com'' = Return (Some a) \<and>
              uid a = ''ab@x.com'' \<and> key a = HashPassword L um ''pw1'' \<and> Enabled a = ''1''"
    by (auto simp: u k e)
  ultimately show ?thesis using u by simp
qed

theorem register_lookup_asymmetry_witness:
  "RegisterUser demo_libs demo_model demo_now empty_table ''a+b@x.com'' ''pw1'' ''10.0.0.1'' =
     (Return (Inr ab_user), ab_table) \<and>
   AdminGetUserInfoByID demo_libs demo_model ab_table ''a+b@x.com'' = Return None \<and>
   (\<exists>a. AdminGetUserInfoByID demo_libs demo_model ab_table ''ab@x.com'' = Return (Some a) \<and>
        uid a = ''ab@x.com'')"
proof -
  have fresh: "map_of (rows empty_table) ''a+b@x.com'' = None" by (simp add: empty_table_def)
  have read: "\<not> get_fails empty_table" by (simp add: empty_table_def)
  from register_lookup_asymmetry [OF demo_register fresh read demo_decodable] demo_register
  show ?thesis by blast
qed

text \<open>
  C9. Only the exact string \<open>0\<close> disables: for an item that loads as an account and whose
  enabled attribute is any string other than \<open>0\<close> (the empty string and \<open>2\<close> included),
  \<open>GetUserInfo\<close> returns the account, with that flag, whenever the stored digest is
  \<open>HashPassword\<close> of the password. The flag is never required to be \<open>1\<close>.
\<close>

theorem GetUserInfo_only_zero_disables:
  assumes item: "GetItemConsistent db u = Some data"
    and loads: "load_user L um u data = Return (Some user)"
    and flag: "data ''enabled'' = Some en" "en \<noteq> ''0''"
    and digest: "data ''key'' = Some (HashPassword L um password)"
  shows "GetUserInfo L um db u password = Return (Some user) \<and> Enabled user = en"
  using assms load_user_Some [OF loads]
  by (simp add: GetUserInfo_def AdminGetUserInfoByID_def)

theorem GetUserInfo_only_zero_disables_witness:
  "GetItemConsistent odd_table ''ab@x.com'' =
     Some ((stored_item demo_libs ab_user)(''enabled'' \<mapsto> ''2'')) \<and>
   GetUserInfo demo_libs demo_model odd_table ''ab@x.com'' ''pw1'' =
     Return (Some (ab_user\<lparr>Enabled := ''2''\<rparr>))"
proof -
  let ?data = "(stored_item demo_libs ab_user)(''enabled'' \<mapsto> ''2'')"
  have item: "GetItemConsistent odd_table ''ab@x.com'' = Some ?data"
    by (simp add: GetItemConsistent_def odd_table_def empty_table_def)
  have loads: "load_user demo_libs demo_model ''ab@x.com'' ?data =
      Return (Some (ab_user\<lparr>Enabled := ''2''\<rparr>))"
    by (simp add: load_user_def stored_item_def cPrimKey_def ab_user_def demo_info
        demo_logs_empty demo_coerce_ip)
  have flag: "?data ''enabled'' = Some ''2''" "''2'' \<noteq> ''0''" by simp_all
  have digest: "?data ''key'' = Some (HashPassword demo_libs demo_model ''pw1'')"
    by (simp add: stored_item_def cPrimKey_def ab_user_def)
  from GetUserInfo_only_zero_disables [OF item loads flag digest] item
  show ?thesis by simp
qed

text \<open>
  C10. The claim fails for \<open>AddActivityLog\<close> on an account whose log map is nil. An item
  whose logs text is the JSON null loads as an account with the nil map: unmarshalling
  sets the map to nil without an error. On that account \<open>AddActivityLog\<close> assigns to an
  entry of the nil map and panics before it reaches \<open>persist\<close>: nothing is appended and
  nothing is returned, whatever the write would answer. (\<open>DisableUser\<close>, \<open>EnableUser\<close>
  and \<open>UpdateUser\<close>, and \<open>AddActivityLog\<close> on a map that is not nil, do as claimed: see
  \<open>no_rollback\<close>.)
\<close>

theorem AddActivityLog_nil_map_panics:
  assumes item: "GetItemConsistent db u = Some data"
    and attrs: "data ''key'' = Some k" "data ''enabled'' = Some en" "data ''info'' = Some info"
      "data ''logs'' = Some lg"
    and info: "Unmarshal_info L info = JsonObject ts rip"
    and null: "Unmarshal_logs L lg = Some None"
  shows "AdminGetUserInfoByID L um db u =
           Return (Some \<lparr>uid = u, key = k, Enabled = en, logs = None, RegTs = ts,
                          RegIp = rip, md = um\<rparr>) \<and>
         AddActivityLog L now \<lparr>uid = u, key = k, Enabled = en, logs = None, RegTs = ts,
                                RegIp = rip, md = um\<rparr> c des ip db' = NilPanic"
  using assms
  by (simp add: AdminGetUserInfoByID_def load_user_def AddActivityLog_nil)

theorem AddActivityLog_nil_map_panics_witness:
  "Unmarshal_logs demo_libs ''null'' = Some None \<and>
   AdminGetUserInfoByID demo_libs demo_model nil_table ''nil@x.com'' = Return (Some nil_user) \<and>
   AddActivityLog demo_libs demo_now nil_user ''account'' ''login'' ''10.0.0.1''
     (nil_table\<lparr>put_fails := True\<rparr>) = NilPanic"
proof -
  let ?data = "[''key'' \<mapsto> ''k'', ''info'' \<mapsto> ''{10.0.0.1}'', ''logs'' \<mapsto> ''null'',
         ''enabled'' \<mapsto> ''1'']"
  have i: "GetItemConsistent nil_table ''nil@x.com'' = Some ?data"
    by (simp add: GetItemConsistent_def nil_table_def empty_table_def)
  have o: "Unmarshal_info demo_libs ''{10.0.0.1}'' = JsonObject demo_now ''10.0.0.1''"
    by (simp add: demo_libs_def unbrace_def)
  have n: "Unmarshal_logs demo_libs ''null'' = Some None" by (simp add: demo_libs_def)
  from AddActivityLog_nil_map_panics
    [OF i _ _ _ _ o n, of "''k''" "''1''" demo_model demo_now "''account''" "''login''"
      "''10.0.0.1''" "nil_table\<lparr>put_fails := True\<rparr>"] n
  show ?thesis by (simp add: nil_user_def)
qed

end
